theory Spec2Isabelle
  imports Complex_Main "HOL-Library.Char_ord" "HOL-Library.List_Lexorder"
begin

section \<open>Survey cleaning script \<^verbatim>\<open>edit_data.py\<close>: values\<close>

text \<open>
  A Python \<^verbatim>\<open>str\<close> is held as the list of the bytes of its UTF-8 encoding. The
  encoding is injective, so \<^verbatim>\<open>==\<close> on Python strings is equality of these lists;
  the separator \<^verbatim>\<open>;\<close> is one byte that occurs in no multi-byte sequence, so
  splitting at it is the same on bytes and on code points; and byte-wise
  lexicographic order is code-point order. The characters of the survey's Czech
  answers that are not ASCII are named here once.
\<close>

abbreviation a_acute :: string where "a_acute \<equiv> [CHR 0xC3, CHR 0xA1]"
abbreviation e_acute :: string where "e_acute \<equiv> [CHR 0xC3, CHR 0xA9]"
abbreviation i_acute :: string where "i_acute \<equiv> [CHR 0xC3, CHR 0xAD]"
abbreviation y_acute :: string where "y_acute \<equiv> [CHR 0xC3, CHR 0xBD]"
abbreviation C_caron :: string where "C_caron \<equiv> [CHR 0xC4, CHR 0x8C]"
abbreviation c_caron :: string where "c_caron \<equiv> [CHR 0xC4, CHR 0x8D]"
abbreviation e_caron :: string where "e_caron \<equiv> [CHR 0xC4, CHR 0x9B]"
abbreviation r_caron :: string where "r_caron \<equiv> [CHR 0xC5, CHR 0x99]"
abbreviation s_caron :: string where "s_caron \<equiv> [CHR 0xC5, CHR 0xA1]"
abbreviation u_ring :: string where "u_ring \<equiv> [CHR 0xC5, CHR 0xAF]"
abbreviation z_caron :: string where "z_caron \<equiv> [CHR 0xC5, CHR 0xBE]"
abbreviation plus_minus :: string where "plus_minus \<equiv> [CHR 0xC2, CHR 0xB1]"
abbreviation en_dash :: string where "en_dash \<equiv> [CHR 0xE2, CHR 0x80, CHR 0x93]"

text \<open>
  A number of the table is a Python \<^verbatim>\<open>int\<close> or a Python \<^verbatim>\<open>float\<close>. A float is an
  IEEE 754 binary64 number: \<open>Fin x\<close> with \<open>x\<close> the real number it stands for, one
  of the two infinities, or \<open>NaN\<close>, which is also what pandas stores in a missing
  cell. An \<^verbatim>\<open>int\<close> is \<open>Fin\<close> of its value. The sign of a float zero is not kept:
  it shows only in the text that \<^verbatim>\<open>to_csv\<close> writes.
\<close>

datatype num = Fin real | PInf | NInf | NaN

text \<open>A cell of the table read by \<^verbatim>\<open>pd.read_csv\<close>: text or a number.\<close>

datatype pyval = Str string | Num num

subsection \<open>Rounding to binary64\<close>

text \<open>
  The integer nearest to a real number, the even one of the two when it lies
  halfway between them.
\<close>

definition round_half_even :: "real \<Rightarrow> int" where
  "round_half_even x =
     (let n = \<lfloor>x\<rfloor>; d = x - of_int n
      in if d < 1 / 2 then n else if 1 / 2 < d then n + 1 else if even n then n else n + 1)"

text \<open>
  A finite binary64 number is a multiple \<open>m * 2 powi e\<close> of a power of two with
  \<open>\<bar>m\<bar> < 2 ^ 53\<close> and \<open>- 1074 \<le> e \<le> 971\<close>. The numbers next to \<open>x \<ge> 0\<close>
  are the multiples of \<open>2 powi e\<close> for the \<open>e\<close> with
  \<open>2 powi (e + 52) \<le> x < 2 powi (e + 53)\<close>, and for \<open>e = - 1074\<close> when \<open>x\<close> is
  smaller than all of these (the subnormal range). The two searches look for
  that \<open>e\<close> from 0, downwards when \<open>x < 2 ^ 53\<close> and upwards otherwise; the first
  argument bounds the number of steps, so that they stop at \<open>- 1074\<close> and at
  \<open>971\<close>.
\<close>

fun exponent_down :: "nat \<Rightarrow> int \<Rightarrow> real \<Rightarrow> int" where
  "exponent_down 0 e x = e"
| "exponent_down (Suc n) e x = (if 2 powi (e + 52) \<le> x then e else exponent_down n (e - 1) x)"

fun exponent_up :: "nat \<Rightarrow> int \<Rightarrow> real \<Rightarrow> int" where
  "exponent_up 0 e x = e"
| "exponent_up (Suc n) e x = (if x < 2 powi (e + 53) then e else exponent_up n (e + 1) x)"

definition quantum_exponent :: "real \<Rightarrow> int" where
  "quantum_exponent x = (if x < 2 ^ 53 then exponent_down 1074 0 x else exponent_up 971 0 x)"

text \<open>
  Rounding to nearest, ties to even, before the check of the range: the
  multiple of the quantum of \<open>x\<close> that is nearest to \<open>x\<close>.
\<close>

definition binary64_round :: "real \<Rightarrow> real" where
  "binary64_round x =
     (let e = quantum_exponent \<bar>x\<bar>
      in of_int (round_half_even (x / 2 powi e)) * 2 powi e)"

text \<open>
  The float that a real result is stored as: the rounded value, or an infinity
  when rounding takes it to \<open>2 ^ 1024\<close> or beyond. This is also the float that a
  decimal literal of the source denotes (\<^verbatim>\<open>0.3\<close> is \<open>binary64 0.3\<close>), and the float
  that Python converts an \<^verbatim>\<open>int\<close> of the table to.
\<close>

definition binary64 :: "real \<Rightarrow> num" where
  "binary64 x =
     (let y = binary64_round x
      in if 2 ^ 1024 \<le> y then PInf else if y \<le> - (2 ^ 1024) then NInf else Fin y)"

subsection \<open>Operators on numbers\<close>

text \<open>
  The comparisons \<^verbatim>\<open>a > b\<close> and \<^verbatim>\<open>a < b\<close> of two numbers: exact on values (Python
  compares an \<^verbatim>\<open>int\<close> with a float by value), and false as soon as one side is
  \<open>NaN\<close>.
\<close>

fun num_less :: "num \<Rightarrow> num \<Rightarrow> bool" where
  "num_less (Fin a) (Fin b) = (a < b)"
| "num_less NaN _ = False"
| "num_less _ NaN = False"
| "num_less PInf _ = False"
| "num_less _ NInf = False"
| "num_less _ PInf = True"
| "num_less NInf _ = True"

text \<open>
  Float arithmetic: the exact result, rounded. Where the script applies these
  operators one operand at least is a float, and an \<^verbatim>\<open>int\<close> operand is converted
  first (\<open>to_float\<close>; an \<^verbatim>\<open>int\<close> that \<^verbatim>\<open>read_csv\<close> stores in a cell has at
  most 64 bits, so the conversion stays finite). The difference \<^verbatim>\<open>row["household_members_gt13"] - 1\<close> is
  taken on a float cell, rounded, or on an \<^verbatim>\<open>int\<close> cell, exactly, and then
  converted for the product with \<^verbatim>\<open>0.5\<close>: both give the rounded difference of
  the values.
\<close>

fun to_float :: "num \<Rightarrow> num" where
  "to_float (Fin a) = binary64 a"
| "to_float v = v"

fun num_add :: "num \<Rightarrow> num \<Rightarrow> num" where
  "num_add (Fin a) (Fin b) = binary64 (a + b)"
| "num_add NaN _ = NaN"
| "num_add _ NaN = NaN"
| "num_add PInf NInf = NaN"
| "num_add NInf PInf = NaN"
| "num_add PInf _ = PInf"
| "num_add _ PInf = PInf"
| "num_add NInf _ = NInf"
| "num_add _ NInf = NInf"

fun num_neg :: "num \<Rightarrow> num" where
  "num_neg (Fin a) = Fin (- a)"
| "num_neg PInf = NInf"
| "num_neg NInf = PInf"
| "num_neg NaN = NaN"

definition num_sub :: "num \<Rightarrow> num \<Rightarrow> num" where
  "num_sub a b = num_add a (num_neg b)"

fun num_mul :: "num \<Rightarrow> num \<Rightarrow> num" where
  "num_mul (Fin a) (Fin b) = binary64 (a * b)"
| "num_mul NaN _ = NaN"
| "num_mul _ NaN = NaN"
| "num_mul (Fin a) PInf = (if a = 0 then NaN else if 0 < a then PInf else NInf)"
| "num_mul (Fin a) NInf = (if a = 0 then NaN else if 0 < a then NInf else PInf)"
| "num_mul PInf (Fin b) = (if b = 0 then NaN else if 0 < b then PInf else NInf)"
| "num_mul NInf (Fin b) = (if b = 0 then NaN else if 0 < b then NInf else PInf)"
| "num_mul PInf PInf = PInf"
| "num_mul NInf NInf = PInf"
| "num_mul PInf NInf = NInf"
| "num_mul NInf PInf = NInf"

text \<open>
  The exceptions of the model: an arithmetic operator applied to text, a
  division by zero, the \<^verbatim>\<open>.str\<close> accessor on a column that does not hold text, a
  column label that the table does not have, a table that has a label twice,
  and a merge whose suffixes give one label twice.
\<close>

datatype error =
  TypeError | ZeroDivisionError | AttributeError | KeyError | ValueError | MergeError

text \<open>
  \<^verbatim>\<open>n / x\<close> for an \<^verbatim>\<open>int\<close> \<open>n\<close> and a float \<open>x\<close>: Python raises on a zero divisor
  and rounds the quotient otherwise.
\<close>

fun int_div_float :: "int \<Rightarrow> num \<Rightarrow> error + num" where
  "int_div_float n (Fin b) =
     (if b = 0 then Inl ZeroDivisionError else Inr (binary64 (of_int n / b)))"
| "int_div_float n PInf = Inr (Fin 0)"
| "int_div_float n NInf = Inr (Fin 0)"
| "int_div_float n NaN = Inr NaN"

text \<open>
  Python's \<^verbatim>\<open>==\<close> on two cells: text equals text, a number equals a number of
  the same value, and \<open>NaN\<close> equals nothing.
\<close>

fun py_eq :: "pyval \<Rightarrow> pyval \<Rightarrow> bool" where
  "py_eq (Str a) (Str b) = (a = b)"
| "py_eq (Num (Fin a)) (Num (Fin b)) = (a = b)"
| "py_eq (Num PInf) (Num PInf) = True"
| "py_eq (Num NInf) (Num NInf) = True"
| "py_eq _ _ = False"

text \<open>
  \<^verbatim>\<open>Series.replace(to_replace, value)\<close> at one cell: a cell equal to
  \<^verbatim>\<open>to_replace\<close> as a whole becomes \<^verbatim>\<open>value\<close>, every other cell stays.
\<close>

definition series_replace :: "pyval \<Rightarrow> pyval \<Rightarrow> pyval \<Rightarrow> pyval" where
  "series_replace to_replace v c = (if py_eq c to_replace then v else c)"

text \<open>A Python \<^verbatim>\<open>int\<close> stored in a cell.\<close>

definition PInt :: "int \<Rightarrow> pyval" where
  "PInt n = Num (Fin (of_int n))"

section \<open>Constants\<close>

definition EQUALIZED_INCOME_MEDIAN :: real where
  "EQUALIZED_INCOME_MEDIAN = 25968"

definition MIDDLE_INCOME_LOWER_BOUND :: real where
  "MIDDLE_INCOME_LOWER_BOUND = 0.75"

definition MIDDLE_INCOME_UPPER_BOUND :: real where
  "MIDDLE_INCOME_UPPER_BOUND = 2"

section \<open>Mapping functions\<close>

text \<open>
  Each function compares its argument with string literals in the order of the
  source and falls through to the \<^verbatim>\<open>else\<close> branch. The argument is any cell:
  \<^verbatim>\<open>input == "..."\<close> holds exactly when the cell is that text.
\<close>

definition getAvgForIncomeRange :: "pyval \<Rightarrow> int" where
  "getAvgForIncomeRange input =
    (if input = Str (''< 20 000 K'' @ c_caron) then 10000
     else if input = Str (''20 000 K'' @ c_caron @ '' '' @ en_dash @ '' 30 000 K'' @ c_caron) then 25000
     else if input = Str (''30 000 K'' @ c_caron @ '' '' @ en_dash @ '' 40 000 K'' @ c_caron) then 35000
     else if input = Str (''40 000 K'' @ c_caron @ '' '' @ en_dash @ '' 50 000 K'' @ c_caron) then 45000
     else if input = Str (''50 000 K'' @ c_caron @ '' '' @ en_dash @ '' 70 000 K'' @ c_caron) then 60000
     else if input = Str (''70 000 K'' @ c_caron @ '' '' @ en_dash @ '' 90 000 K'' @ c_caron) then 80000
     else if input = Str (''90 000 K'' @ c_caron @ '' '' @ en_dash @ '' 120 000 K'' @ c_caron) then 105000
     else 140000)"

definition getAvgForSavingRange :: "pyval \<Rightarrow> int" where
  "getAvgForSavingRange input =
    (if input = Str (''Vytv'' @ a_acute @ r_caron @ i_acute @ ''me deficit (v'' @ y_acute
          @ ''daje znateln'' @ e_caron @ '' p'' @ r_caron @ ''evy'' @ s_caron @ ''uj'' @ i_acute
          @ '' p'' @ r_caron @ i_acute @ ''jmy)'') then - 1000
     else if input = Str (''Nespo'' @ r_caron @ i_acute @ ''me (v'' @ y_acute @ ''daje se p''
          @ r_caron @ ''ibli'' @ z_caron @ ''n'' @ e_caron @ '' rovnaj'' @ i_acute @ '' p''
          @ r_caron @ i_acute @ ''jm'' @ u_ring @ ''m, '' @ plus_minus @ '' 500 K'' @ c_caron
          @ '')'') then 0
     else if input = Str (''500 a'' @ z_caron @ '' 1 000 K'' @ c_caron) then 750
     else if input = Str (''1000 a'' @ z_caron @ '' 3 000 K'' @ c_caron) then 2000
     else if input = Str (''3 000 a'' @ z_caron @ '' 5 000 K'' @ c_caron) then 4000
     else if input = Str (''5 000 a'' @ z_caron @ '' 7 000 K'' @ c_caron) then 6000
     else 9000)"

definition investmentFrequencyMapping :: "pyval \<Rightarrow> int" where
  "investmentFrequencyMapping input =
    (if input = Str (''Ano, pravideln'' @ e_caron) then 2
     else if input = Str (''Ano, p'' @ r_caron @ i_acute @ ''le'' @ z_caron @ ''itostn'' @ e_caron) then 1
     else 0)"

definition encounteredLossesMapping :: "pyval \<Rightarrow> int" where
  "encounteredLossesMapping input =
    (if input = Str (''Ano, v'' @ y_acute @ ''razn'' @ y_acute @ ''mi'') then 2
     else if input = Str (''Ano, men'' @ s_caron @ i_acute @ '' ztr'' @ a_acute @ ''ty'') then 1
     else 0)"

definition riskEncounterFrequencyMapping :: "pyval \<Rightarrow> int" where
  "riskEncounterFrequencyMapping input =
    (if input = Str (C_caron @ ''asto (vyhled'' @ a_acute @ ''v'' @ a_acute @ ''m nov'' @ e_acute
          @ '' p'' @ r_caron @ i_acute @ ''le'' @ z_caron @ ''itosti, i kdy'' @ z_caron
          @ '' jsou rizikov'' @ e_acute @ '')'') then 3
     else if input = Str (''Ob'' @ c_caron @ ''as (pokud m'' @ a_acute @ ''m pocit, '' @ z_caron
          @ ''e riziko stoj'' @ i_acute @ '' za to)'') then 2
     else if input = Str (''Z'' @ r_caron @ i_acute @ ''dka (jen pokud je to nezbytn'' @ e_acute
          @ '')'') then 1
     else 0)"

definition decisionStrategyMapping :: "pyval \<Rightarrow> int" where
  "decisionStrategyMapping input =
    (if input = Str (''D'' @ e_caron @ ''l'' @ a_acute @ ''m rychl'' @ a_acute @ '' rozhodnut''
          @ i_acute @ '' na z'' @ a_acute @ ''klad'' @ e_caron @ '' prvn'' @ i_acute
          @ ''ch dojm'' @ u_ring) then 3
     else if input = Str (''Rozhoduji se uv'' @ a_acute @ z_caron @ ''liv'' @ e_caron
          @ '', ale nepot'' @ r_caron @ ''ebuji dlouhou dobu'') then 1
     else if input = Str (''Z'' @ r_caron @ i_acute @ ''dka (jen pokud je to nezbytn'' @ e_acute
          @ '')'') then 0
     else 2)"

definition riskToleranceMapping :: "pyval \<Rightarrow> int" where
  "riskToleranceMapping input =
    (if input = Str (''Rozhodn'' @ e_caron @ '' ano, jsem otev'' @ r_caron @ ''en'' @ y_acute
          @ '' v'' @ y_acute @ ''zv'' @ a_acute @ ''m i riziku samotn'' @ e_acute @ ''mu'') then 3
     else if input = Str (''Ob'' @ c_caron @ ''as ano, pokud v'' @ e_caron @ r_caron @ i_acute
          @ ''m v potenci'' @ a_acute @ ''ln'' @ i_acute @ '' p'' @ r_caron @ i_acute @ ''nosy'') then 2
     else if input = Str (''Sp'' @ i_acute @ s_caron @ ''e ne, riskuji jen minim'' @ a_acute
          @ ''ln'' @ e_caron) then 1
     else 0)"

section \<open>Derived metrics\<close>

text \<open>
  The lambda of the \<^verbatim>\<open>is_middle_income\<close> column. The lower threshold is the
  float product \<^verbatim>\<open>0.75 * 25968\<close>, which is the integer 19476 without rounding;
  the upper one is the integer product \<^verbatim>\<open>2 * 2 * 25968\<close>.
\<close>

definition is_middle_income :: "num \<Rightarrow> int" where
  "is_middle_income x =
    (if num_less (Fin (MIDDLE_INCOME_LOWER_BOUND * EQUALIZED_INCOME_MEDIAN)) x
        \<and> num_less x (Fin (2 * MIDDLE_INCOME_UPPER_BOUND * EQUALIZED_INCOME_MEDIAN))
     then 1 else 0)"

text \<open>
  The lambda of the \<^verbatim>\<open>cons_unit\<close> column,
  \<^verbatim>\<open>1 + 0.5 * (row["household_members_gt13"] - 1) + 0.3 * row["household_members_le13"]\<close>,
  evaluated from left to right in float arithmetic: every operator rounds its
  result, \<^verbatim>\<open>0.5\<close> is a float as it stands, and \<^verbatim>\<open>0.3\<close> is the float nearest to
  three tenths. Text in either cell makes the arithmetic raise.
\<close>

definition cons_unit :: "pyval \<Rightarrow> pyval \<Rightarrow> error + num" where
  "cons_unit gt13 le13 =
    (case (gt13, le13) of
       (Num a, Num k) \<Rightarrow>
         Inr (num_add (num_add (Fin 1) (num_mul (Fin 0.5) (num_sub a (Fin 1))))
                (num_mul (binary64 0.3) (to_float k)))
     | _ \<Rightarrow> Inl TypeError)"

text \<open>
  The lambda of the \<^verbatim>\<open>eq_hs_income\<close> column,
  \<^verbatim>\<open>row['avg_income'] / row['cons_unit']\<close>: the \<^verbatim>\<open>int\<close> of the \<^verbatim>\<open>avg_income\<close> column
  divided by the float of the \<^verbatim>\<open>cons_unit\<close> column.
\<close>

definition eq_hs_income :: "int \<Rightarrow> num \<Rightarrow> error + num" where
  "eq_hs_income avg cu = int_div_float avg cu"

section \<open>Value fixes and the yes/no recoding\<close>

text \<open>Line 161: the malformed income bracket gets the label of the bracket it belongs to.\<close>

definition fix_income_range :: "pyval \<Rightarrow> pyval" where
  "fix_income_range =
     series_replace (Str (''70 000 K'' @ c_caron @ '' '' @ en_dash @ '' 120 000 K'' @ c_caron))
                    (Str (''90 000 K'' @ c_caron @ '' '' @ en_dash @ '' 120 000 K'' @ c_caron))"

text \<open>Line 162: \<^verbatim>\<open>df["household_members_gt13"].replace(0, 1)\<close>.\<close>

definition fix_household_members_gt13 :: "pyval \<Rightarrow> pyval" where
  "fix_household_members_gt13 = series_replace (PInt 0) (PInt 1)"

text \<open>
  Lines 165 and 166: \<^verbatim>\<open>replace("Ano", 1)\<close>, then \<^verbatim>\<open>replace("Ne", 0)\<close> on its
  result.
\<close>

definition recode_is_investing_time_consuming :: "pyval \<Rightarrow> pyval" where
  "recode_is_investing_time_consuming c =
     series_replace (Str ''Ne'') (PInt 0) (series_replace (Str ''Ano'') (PInt 1) c)"

section \<open>One row through lines 161 to 188\<close>

text \<open>
  The columns that these lines read, under the names that the renaming of line
  126 gives them, and the columns they add. The steps work cell by cell, so the
  table's transformation is this function applied to each row; a row whose
  arithmetic raises stops the run.
\<close>

record raw_row =
  income_range :: pyval
  household_members_gt13 :: pyval
  household_members_le13 :: pyval
  is_investing_time_consuming :: pyval
  savings_range :: pyval
  investment_frequency :: pyval
  has_encountered_losses :: pyval
  risk_encounter_frequency :: pyval
  decision_strategy :: pyval
  risk_tolerance :: pyval

record clean_row = raw_row +
  avg_income :: int
  avg_savings :: int
  cons_unit_col :: num
  eq_hs_income_col :: num
  is_middle_income_col :: int

definition transform_row :: "raw_row \<Rightarrow> error + clean_row" where
  "transform_row r =
    (let income = fix_income_range (income_range r);
         gt13 = fix_household_members_gt13 (household_members_gt13 r);
         le13 = household_members_le13 r;
         avg = getAvgForIncomeRange income
     in case cons_unit gt13 le13 of
          Inl e \<Rightarrow> Inl e
        | Inr cu \<Rightarrow>
           (case eq_hs_income avg cu of
              Inl e \<Rightarrow> Inl e
            | Inr eq \<Rightarrow>
               Inr \<lparr> income_range = income,
                     household_members_gt13 = gt13,
                     household_members_le13 = le13,
                     is_investing_time_consuming =
                       recode_is_investing_time_consuming (is_investing_time_consuming r),
                     savings_range = savings_range r,
                     investment_frequency = PInt (investmentFrequencyMapping (investment_frequency r)),
                     has_encountered_losses = PInt (encounteredLossesMapping (has_encountered_losses r)),
                     risk_encounter_frequency =
                       PInt (riskEncounterFrequencyMapping (risk_encounter_frequency r)),
                     decision_strategy = PInt (decisionStrategyMapping (decision_strategy r)),
                     risk_tolerance = PInt (riskToleranceMapping (risk_tolerance r)),
                     avg_income = avg,
                     avg_savings = getAvgForSavingRange (savings_range r),
                     cons_unit_col = cu,
                     eq_hs_income_col = eq,
                     is_middle_income_col = is_middle_income eq \<rparr>))"

text \<open>
  A row of the survey with the two household counts left open: income bracket
  20 000 to 30 000, and one answer of the instrument in each recoded column.
\<close>

definition example_row :: "pyval \<Rightarrow> pyval \<Rightarrow> raw_row" where
  "example_row gt13 le13 =
    \<lparr> income_range = Str (''20 000 K'' @ c_caron @ '' '' @ en_dash @ '' 30 000 K'' @ c_caron),
      household_members_gt13 = gt13,
      household_members_le13 = le13,
      is_investing_time_consuming = Str ''Ano'',
      savings_range = Str (''500 a'' @ z_caron @ '' 1 000 K'' @ c_caron),
      investment_frequency = Str (''Ano, pravideln'' @ e_caron),
      has_encountered_losses = Str ''Ne'',
      risk_encounter_frequency =
        Str (''Z'' @ r_caron @ i_acute @ ''dka (jen pokud je to nezbytn'' @ e_acute @ '')''),
      decision_strategy =
        Str (''Rozhoduji se uv'' @ a_acute @ z_caron @ ''liv'' @ e_caron
             @ '', ale nepot'' @ r_caron @ ''ebuji dlouhou dobu''),
      risk_tolerance = Num NaN \<rparr>"

section \<open>Main execution: existence check and backup\<close>

text \<open>
  The path functions of Python's \<^verbatim>\<open>posixpath\<close> that lines 113, 114 and 257 call
  (the script runs \<^verbatim>\<open>cp\<close>, so the separator is the slash).
  \<^verbatim>\<open>os.path.split\<close> cuts after the last separator and strips the trailing
  separators of the head unless the head consists of separators only;
  \<^verbatim>\<open>os.path.join\<close> puts one separator between its arguments unless the first is
  empty or already ends with one, and returns the second alone if it is
  absolute.
\<close>

abbreviation sep :: char where "sep \<equiv> CHR ''/''"

definition rstrip_sep :: "string \<Rightarrow> string" where
  "rstrip_sep s = rev (dropWhile (\<lambda>c. c = sep) (rev s))"

definition os_path_split :: "string \<Rightarrow> string \<times> string" where
  "os_path_split p =
    (let head = rev (dropWhile (\<lambda>c. c \<noteq> sep) (rev p));
         tail = rev (takeWhile (\<lambda>c. c \<noteq> sep) (rev p))
     in (if head \<noteq> [] \<and> head \<noteq> replicate (length head) sep then rstrip_sep head else head,
         tail))"

definition os_path_dirname :: "string \<Rightarrow> string" where
  "os_path_dirname p = fst (os_path_split p)"

definition os_path_join :: "string \<Rightarrow> string \<Rightarrow> string" where
  "os_path_join a b =
    (if b \<noteq> [] \<and> hd b = sep then b
     else if a = [] \<or> last a = sep then a @ b
     else a @ [sep] @ b)"

text \<open>
  What a run does to the world outside, in order: a line printed, a shell
  command handed to \<^verbatim>\<open>os.popen\<close>, the call of \<^verbatim>\<open>pd.read_csv\<close> on a path, the
  call of \<^verbatim>\<open>to_csv\<close> on a path, the call of \<^verbatim>\<open>exit()\<close>, and the end of the run by
  an exception that nothing catches.
\<close>

datatype event = Print string | Popen string | ReadCsv string | ToCsv string | Exit | Uncaught

abbreviation dquote :: string where "dquote \<equiv> [CHR 0x22]"

text \<open>
  The script from line 108 on. \<open>file_path\<close> is the line the user typed, stripped;
  \<open>path_exists\<close> is \<^verbatim>\<open>os.path.exists\<close> at the time of the check; \<open>completes\<close>
  tells whether loading and transforming the table (lines 119 to 254) run
  through without an exception. \<^verbatim>\<open>os.popen\<close> starts the shell command and
  returns; the copy itself is the work of that process.
\<close>

definition main_execution :: "(string \<Rightarrow> bool) \<Rightarrow> bool \<Rightarrow> string \<Rightarrow> event list" where
  "main_execution path_exists completes file_path =
    (if \<not> path_exists file_path then [Print ''File does not exist.'', Exit]
     else
       (let (directory, filename) = os_path_split file_path;
            backup_path = os_path_join directory (''backup_'' @ filename);
            output_path = os_path_join (os_path_dirname file_path) ''out.csv''
        in [Popen (''cp '' @ dquote @ file_path @ dquote @ '' '' @ dquote @ backup_path @ dquote),
            Print (''Created a backup: '' @ backup_path),
            ReadCsv file_path]
           @ (if completes
              then [ToCsv output_path, Print (''Data saved to '' @ output_path), Exit]
              else [Uncaught])))"

text \<open>
  \<^verbatim>\<open>os.popen\<close> passes its argument to \<^verbatim>\<open>/bin/sh -c\<close>. The shell splits the line
  into fields: blanks outside double quotes separate fields, a double quote
  opens or closes a quoted stretch and is removed, and inside double quotes
  every character stands for itself except \<^verbatim>\<open>$\<close>, the backquote and the backslash.
  Outside quotes further characters have a meaning of their own. The model
  covers the lines without any of these: \<open>Fields\<close> are the command name and its
  operands, \<open>Unmatched_quote\<close> is the shell's syntax error on a quote left open,
  and \<open>Not_modelled\<close> is every other line.
\<close>

datatype parsed = Fields "string list" | Unmatched_quote | Not_modelled

definition special_in_quotes :: "char \<Rightarrow> bool" where
  "special_in_quotes c = (c \<in> {CHR ''$'', CHR 0x60, CHR 0x5C})"

definition special_unquoted :: "char \<Rightarrow> bool" where
  "special_unquoted c =
     (special_in_quotes c
      \<or> c \<in> {CHR ''|'', CHR ''&'', CHR '';'', CHR ''<'', CHR ''>'', CHR ''('', CHR '')'',
             CHR 0x27, CHR 0x09, CHR 0x0A, CHR ''*'', CHR ''?'', CHR ''['', CHR '']'',
             CHR ''#'', CHR ''~'', CHR ''='', CHR ''%'', CHR ''!'', CHR ''{'', CHR ''}'',
             CHR ''^''})"

fun push_field :: "string \<Rightarrow> parsed \<Rightarrow> parsed" where
  "push_field w (Fields ws) = Fields (w # ws)"
| "push_field w p = p"

text \<open>
  The fields of the rest of a line; \<open>quoted\<close> tells whether a double quote is
  open, and \<open>field\<close> is the part of the current field read so far, if one has
  begun.
\<close>

fun sh_fields :: "bool \<Rightarrow> string option \<Rightarrow> string \<Rightarrow> parsed" where
  "sh_fields quoted field [] =
     (if quoted then Unmatched_quote
      else Fields (case field of None \<Rightarrow> [] | Some w \<Rightarrow> [w]))"
| "sh_fields quoted field (c # cs) =
     (if c = CHR 0x22 then
        sh_fields (\<not> quoted) (Some (case field of None \<Rightarrow> [] | Some w \<Rightarrow> w)) cs
      else if quoted then
        (if special_in_quotes c then Not_modelled
         else sh_fields quoted (Some ((case field of None \<Rightarrow> [] | Some w \<Rightarrow> w) @ [c])) cs)
      else if c = CHR '' '' then
        (case field of None \<Rightarrow> sh_fields quoted None cs
         | Some w \<Rightarrow> push_field w (sh_fields quoted None cs))
      else if special_unquoted c then Not_modelled
      else sh_fields quoted (Some ((case field of None \<Rightarrow> [] | Some w \<Rightarrow> w) @ [c])) cs)"

definition sh_command :: "string \<Rightarrow> parsed" where
  "sh_command line = sh_fields False None line"

section \<open>Multiple-choice expansion\<close>

text \<open>
  \<^verbatim>\<open>str.split(sep)\<close> for a separator of one character: the pieces between the
  separators, one piece more than there are separators, so the empty text
  gives one empty piece.
\<close>

abbreviation semicolon :: char where "semicolon \<equiv> CHR '';''"

fun str_split :: "char \<Rightarrow> string \<Rightarrow> string list" where
  "str_split c [] = [[]]"
| "str_split c (x # xs) =
     (if x = c then [] # str_split c xs
      else (x # hd (str_split c xs)) # tl (str_split c xs))"

text \<open>
  The table that \<^verbatim>\<open>splitMultipleChoice\<close> receives, as far as the function looks
  at it: per row the cell of the \<^verbatim>\<open>id\<close> column, the cell of the column named by
  \<^verbatim>\<open>mult_choice_col_name\<close>, and the cells of all other columns, which it only
  carries along. Rows are labelled by their position (the index that
  \<^verbatim>\<open>read_csv\<close> gives and line 121 counts from). A cell of the multi-select
  column is text or a number, \<open>Num NaN\<close> for an empty cell of the file. The
  table also has the list of its column labels, in order, which are distinct in
  a table that \<^verbatim>\<open>read_csv\<close> built.
\<close>

record 'a respondent =
  rid :: int
  answer :: pyval
  other :: 'a

record 'a dataframe =
  labels :: "string list"
  rows :: "'a respondent list"

text \<open>
  A row of the returned table: the row it comes from, the new
  \<^verbatim>\<open>..._split\<close> cell, and the cells of the indicator columns in the order of
  their labels.
\<close>

record 'a expanded = "'a respondent" +
  answer_split :: "string list option"
  indicators :: "nat list"

text \<open>
  The \<^verbatim>\<open>.str\<close> accessor exists on a column that holds text. \<^verbatim>\<open>read_csv\<close> gives a
  column the dtype \<^verbatim>\<open>object\<close> when at least one of its cells is text, and also
  when the table has no rows; a column whose cells are all empty or all numbers
  gets a numeric dtype, and \<^verbatim>\<open>.str\<close> on it raises \<^verbatim>\<open>AttributeError\<close>.
\<close>

definition text_column :: "pyval list \<Rightarrow> bool" where
  "text_column col = (col = [] \<or> list_ex (\<lambda>c. case c of Str s \<Rightarrow> True | Num n \<Rightarrow> False) col)"

text \<open>
  \<^verbatim>\<open>Series.str.split(";")\<close> at one cell of a text column: the list of pieces for
  text, and a missing value for a cell that is not text.
\<close>

definition str_split_cell :: "pyval \<Rightarrow> string list option" where
  "str_split_cell c = (case c of Str s \<Rightarrow> Some (str_split semicolon s) | Num n \<Rightarrow> None)"

text \<open>
  \<^verbatim>\<open>DataFrame.explode\<close> on the list column: one row per list entry under the
  label of the row it comes from; a missing cell and an empty list keep one row
  with a missing value.
\<close>

definition explode_cell :: "'l \<Rightarrow> string list option \<Rightarrow> ('l \<times> string option) list" where
  "explode_cell i c =
     (case c of
        None \<Rightarrow> [(i, None)]
      | Some [] \<Rightarrow> [(i, None)]
      | Some (x # xs) \<Rightarrow> map (\<lambda>v. (i, Some v)) (x # xs))"

definition explode :: "string list option list \<Rightarrow> (nat \<times> string option) list" where
  "explode col = concat (map (\<lambda>(i, c). explode_cell i c) (enumerate 0 col))"

text \<open>
  \<^verbatim>\<open>pd.get_dummies\<close> on the exploded column: the labels are the distinct values
  that are not missing, sorted; each row gets 1 under its own value and 0
  elsewhere, a row with a missing value 0 everywhere.
\<close>

definition get_dummies ::
  "(nat \<times> string option) list \<Rightarrow> string list \<times> (nat \<times> nat list) list" where
  "get_dummies ser =
     (let cats = sort (remdups (List.map_filter snd ser))
      in (cats, map (\<lambda>(i, v). (i, map (\<lambda>c. if v = Some c then 1 else 0) cats)) ser))"

text \<open>
  \<^verbatim>\<open>dummies.groupby(dataframe["id"]).sum()\<close>: the key of a row of \<open>dummies\<close> is the
  \<^verbatim>\<open>id\<close> cell under the same label; the result has one row per distinct key, in
  sorted order, with the column sums of the rows of that key.
\<close>

definition groupby_sum ::
  "int list \<Rightarrow> nat \<Rightarrow> (nat \<times> nat list) list \<Rightarrow> (int \<times> nat list) list" where
  "groupby_sum keys ncols m =
     map (\<lambda>k. (k, map (\<lambda>j. sum_list (map (\<lambda>(i, r). r ! j) (filter (\<lambda>(i, r). keys ! i = k) m)))
                       [0..<ncols]))
         (sort (remdups (map (\<lambda>(i, r). keys ! i) m)))"

text \<open>
  The column labels of \<^verbatim>\<open>dataframe.merge(binary_matrix, ...)\<close>: a label that both
  tables have gets the suffix \<^verbatim>\<open>_x\<close> on the left and \<^verbatim>\<open>_y\<close> on the right, and
  pandas 2 raises \<^verbatim>\<open>MergeError\<close> when that gives one side the same label twice.
\<close>

definition merge_labels :: "string list \<Rightarrow> string list \<Rightarrow> error + (string list \<times> string list)" where
  "merge_labels left right =
     (let llabels = map (\<lambda>l. if l \<in> set right then l @ ''_x'' else l) left;
          rlabels = map (\<lambda>l. if l \<in> set left then l @ ''_y'' else l) right
      in if distinct llabels \<and> distinct rlabels then Inr (llabels, rlabels) else Inl MergeError)"

text \<open>
  \<^verbatim>\<open>splitMultipleChoice\<close>, statement by statement. Line 95 reads the column
  (\<^verbatim>\<open>KeyError\<close> without it, \<^verbatim>\<open>AttributeError\<close> when the label stands for more than
  one column or the column does not hold text) and stores the lists of pieces
  under \<open>new_col_name\<close>, a new last column unless the table has that label
  already. Line 96 refuses a table that has a label twice. Line 98 groups by the
  \<^verbatim>\<open>id\<close> column. Line 99 is an inner join: each row of the table, in order, with
  each row of \<open>binary_matrix\<close> whose key is the row's \<^verbatim>\<open>id\<close>. The result is the
  labels of the table's own columns after the merge, the labels of the
  indicator columns, and the rows. When the table already has a column
  labelled \<open>new_col_name\<close>, the code replaces its cells; the model does not
  follow that into the carried cells \<open>other\<close>.
\<close>

definition splitMultipleChoice ::
  "string \<Rightarrow> 'a dataframe \<Rightarrow> error + (string list \<times> string list \<times> 'a expanded list)" where
  "splitMultipleChoice mult_choice_col_name dataframe =
     (let new_col_name = mult_choice_col_name @ ''_split'';
          column = map answer (rows dataframe)
      in if mult_choice_col_name \<notin> set (labels dataframe) then Inl KeyError
         else if count_list (labels dataframe) mult_choice_col_name \<noteq> 1 \<or> \<not> text_column column
           then Inl AttributeError
         else
          (let new_col = map str_split_cell column;
               labels1 = (if new_col_name \<in> set (labels dataframe) then labels dataframe
                          else labels dataframe @ [new_col_name])
           in if \<not> distinct labels1 then Inl ValueError
              else
               (let exploded = explode new_col;
                    (cats, dummies) = get_dummies exploded
                in if ''id'' \<notin> set labels1 then Inl KeyError
                   else
                    (let binary_matrix =
                           groupby_sum (map rid (rows dataframe)) (length cats) dummies
                     in case merge_labels labels1 cats of
                          Inl e \<Rightarrow> Inl e
                        | Inr (llabels, rlabels) \<Rightarrow>
                            Inr (llabels, rlabels,
                                 concat (map (\<lambda>(r, s). map (\<lambda>(k, counts).
                                            \<lparr> rid = rid r, answer = answer r, other = other r,
                                              answer_split = s, indicators = counts \<rparr>)
                                          (filter (\<lambda>(k, counts). k = rid r) binary_matrix))
                                   (zip (rows dataframe) new_col)))))))"

text \<open>
  Line 121, \<^verbatim>\<open>df["id"] = df.index + 1\<close>: the identifiers of a table of \<open>n\<close> rows.
\<close>

definition respondent_ids :: "nat \<Rightarrow> int list" where
  "respondent_ids n = map (\<lambda>i. int i + 1) [0..<n]"

text \<open>
  The batch of respondents as the specification describes it (these three
  definitions follow the specification, not the source): each respondent has an
  identifier, the list of choices selected, and the other answers. The cell of
  the multi-select column is the semicolon-delimited list of the choices, and
  an empty cell when nothing is selected.
\<close>

fun str_join :: "char \<Rightarrow> string list \<Rightarrow> string" where
  "str_join c [] = []"
| "str_join c [x] = x"
| "str_join c (x # y # ys) = x @ c # str_join c (y # ys)"

definition cell_of_choices :: "string list \<Rightarrow> pyval" where
  "cell_of_choices S = (if S = [] then Num NaN else Str (str_join semicolon S))"

definition rows_of_batch :: "(int \<times> string list \<times> 'a) list \<Rightarrow> 'a respondent list" where
  "rows_of_batch batch =
     map (\<lambda>(i, S, x). \<lparr> rid = i, answer = cell_of_choices S, other = x \<rparr>) batch"

section \<open>Properties\<close>

lemmas income_constants =
  EQUALIZED_INCOME_MEDIAN_def MIDDLE_INCOME_LOWER_BOUND_def MIDDLE_INCOME_UPPER_BOUND_def

subsection \<open>Rounding\<close>

lemma round_half_even_of_int: "round_half_even (of_int n) = n"
  by (simp add: round_half_even_def)

lemma round_half_even_error: "\<bar>of_int (round_half_even x) - x\<bar> \<le> 1 / 2"
proof -
  have "of_int \<lfloor>x\<rfloor> \<le> x" "x < of_int \<lfloor>x\<rfloor> + 1"
    by linarith+
  then show ?thesis
    by (auto simp: round_half_even_def Let_def)
qed

lemma exponent_down_le: "exponent_down n s x \<le> s"
proof (induction n arbitrary: s)
  case 0
  then show ?case by simp
next
  case (Suc n)
  from Suc[of "s - 1"] show ?case by simp
qed

lemma exponent_down_ge:
  "2 powi (e + 52) \<le> x \<Longrightarrow> e \<le> s \<Longrightarrow> e \<le> exponent_down n s x"
proof (induction n arbitrary: s)
  case 0
  then show ?case by simp
next
  case (Suc n)
  show ?case
  proof (cases "2 powi (s + 52) \<le> x")
    case True
    with Suc.prems show ?thesis by simp
  next
    case False
    with Suc.prems(1) have "(2::real) powi (e + 52) < 2 powi (s + 52)"
      by simp
    moreover have "(2::real) powi (s + 52) \<le> 2 powi (e + 52)" if "s \<le> e"
      using that by (intro power_int_increasing) auto
    ultimately have "e < s"
      by fastforce
    with Suc.IH[OF Suc.prems(1), of "s - 1"] False show ?thesis
      by simp
  qed
qed

lemma exponent_down_reaches:
  "x < 2 powi (j + 53) \<Longrightarrow> s - int n \<le> j \<Longrightarrow> exponent_down n s x \<le> j"
proof (induction n arbitrary: s)
  case 0
  then show ?case by simp
next
  case (Suc n)
  show ?case
  proof (cases "2 powi (s + 52) \<le> x")
    case True
    with Suc.prems(1) have "(2::real) powi (s + 52) < 2 powi (j + 53)"
      by simp
    moreover have "(2::real) powi (j + 53) \<le> 2 powi (s + 52)" if "j < s"
      using that by (intro power_int_increasing) auto
    ultimately have "s \<le> j"
      by fastforce
    with True show ?thesis by simp
  next
    case False
    with Suc.IH[OF Suc.prems(1), of "s - 1"] Suc.prems(2) show ?thesis
      by simp
  qed
qed

lemma exponent_down_stops:
  "2 powi (exponent_down n s x + 52) \<le> x \<or> exponent_down n s x = s - int n"
proof (induction n arbitrary: s)
  case 0
  then show ?case by simp
next
  case (Suc n)
  from Suc[of "s - 1"] show ?case by auto
qed

text \<open>
  The quantum of a number of the normal range below \<open>2 ^ 53\<close>, and what it
  means for rounding there: a relative error of at most \<open>2 powi - 53\<close>, and no
  error on a multiple of a power of two that has at most 53 bits.
\<close>

lemma quantum_exponent_eq:
  assumes "- 1074 \<le> e" and "e \<le> 0"
    and "2 powi (e + 52) \<le> x" and "x < 2 powi (e + 53)"
  shows "quantum_exponent x = e"
proof -
  have "(2::real) powi (e + 53) \<le> 2 powi 53"
    using assms(2) by (intro power_int_increasing) auto
  with assms(4) have small: "x < 2 ^ 53"
    by simp
  have "exponent_down 1074 0 x \<le> e"
    using assms(1,4) by (intro exponent_down_reaches) auto
  moreover have "e \<le> exponent_down 1074 0 x"
    using assms(2,3) by (intro exponent_down_ge) auto
  ultimately show ?thesis
    using small by (simp add: quantum_exponent_def)
qed

lemma quantum_exponent_normal:
  assumes "2 powi (- 1022) \<le> x" and "x < 2 ^ 53"
  shows "2 powi (quantum_exponent x + 52) \<le> x"
  using exponent_down_stops[of 1074 0 x] assms
  by (auto simp: quantum_exponent_def)

lemma quantum_exponent_below:
  assumes "x < 2 ^ 53" and "x < 2 powi (j + 53)" and "- 1074 \<le> j"
  shows "quantum_exponent x \<le> j"
  using exponent_down_reaches[of x j 0 1074] assms
  by (simp add: quantum_exponent_def)

lemma quantum_exponent_nonpos: "x < 2 ^ 53 \<Longrightarrow> quantum_exponent x \<le> 0"
  by (simp add: quantum_exponent_def exponent_down_le)

lemma binary64_round_0: "binary64_round 0 = 0"
  by (simp add: binary64_round_def round_half_even_def)

lemma binary64_round_eval:
  assumes "- 1074 \<le> e" and "e \<le> 0"
    and "2 powi (e + 52) \<le> \<bar>x\<bar>" and "\<bar>x\<bar> < 2 powi (e + 53)"
  shows "binary64_round x = of_int (round_half_even (x / 2 powi e)) * 2 powi e"
  by (simp add: binary64_round_def quantum_exponent_eq[OF assms])

lemma binary64_round_near:
  assumes "\<bar>x\<bar> < 2 ^ 53"
  shows "\<bar>binary64_round x - x\<bar> \<le> 2 powi (quantum_exponent \<bar>x\<bar>) / 2"
proof -
  define e where "e = quantum_exponent \<bar>x\<bar>"
  define q :: real where "q = 2 powi e"
  have q: "0 < q"
    by (simp add: q_def)
  have "binary64_round x - x = (of_int (round_half_even (x / q)) - x / q) * q"
    using q by (simp add: binary64_round_def e_def q_def Let_def field_simps)
  then have "\<bar>binary64_round x - x\<bar> = \<bar>of_int (round_half_even (x / q)) - x / q\<bar> * q"
    using q by (simp add: abs_mult)
  also have "\<dots> \<le> 1 / 2 * q"
    using q round_half_even_error[of "x / q"] by (intro mult_right_mono) auto
  finally show ?thesis
    by (simp add: q_def e_def)
qed

lemma binary64_round_error:
  assumes "2 powi (- 1022) \<le> \<bar>x\<bar>" and "\<bar>x\<bar> < 2 ^ 53"
  shows "\<bar>binary64_round x - x\<bar> \<le> \<bar>x\<bar> / 2 ^ 53"
proof -
  have "(2::real) powi (quantum_exponent \<bar>x\<bar>) * 2 ^ 52 = 2 powi (quantum_exponent \<bar>x\<bar> + 52)"
    by (simp add: power_int_add)
  also have "\<dots> \<le> \<bar>x\<bar>"
    using assms by (rule quantum_exponent_normal)
  finally have "2 powi (quantum_exponent \<bar>x\<bar>) / 2 \<le> \<bar>x\<bar> / 2 ^ 53"
    by (simp add: field_simps)
  with binary64_round_near[OF assms(2)] show ?thesis
    by linarith
qed

lemma binary64_round_exact:
  assumes "x = of_int m * 2 powi j" and "\<bar>x\<bar> < 2 powi (j + 53)"
    and "\<bar>x\<bar> < 2 ^ 53" and "- 1074 \<le> j"
  shows "binary64_round x = x"
proof -
  define e where "e = quantum_exponent \<bar>x\<bar>"
  have "e \<le> j"
    unfolding e_def using assms(3,2,4) by (rule quantum_exponent_below)
  then have "(2::real) powi j = 2 powi e * 2 ^ nat (j - e)"
    by (simp add: power_int_add[symmetric] power_int_def[of _ "int _"] flip: power_int_of_nat)
  then have "x / 2 powi e = of_int (m * 2 ^ nat (j - e))"
    by (simp add: assms(1))
  then have "round_half_even (x / 2 powi e) = m * 2 ^ nat (j - e)"
    by (simp only: round_half_even_of_int)
  then have "binary64_round x = of_int (m * 2 ^ nat (j - e)) * 2 powi e"
    by (simp add: binary64_round_def e_def Let_def)
  also have "\<dots> = x"
    using \<open>x / 2 powi e = of_int (m * 2 ^ nat (j - e))\<close> by (simp add: field_simps)
  finally show ?thesis .
qed

lemma binary64_finite:
  assumes "\<bar>x\<bar> < 2 ^ 53"
  shows "binary64 x = Fin (binary64_round x)"
proof -
  have "(2::real) powi (quantum_exponent \<bar>x\<bar>) \<le> 2 powi 0"
    using assms by (intro power_int_increasing quantum_exponent_nonpos) auto
  with binary64_round_near[OF assms] have "\<bar>binary64_round x - x\<bar> \<le> 1 / 2"
    by simp
  with assms have "\<bar>binary64_round x\<bar> < 2 ^ 53 + 1"
    by linarith
  moreover have "(2::real) ^ 53 + 1 < 2 ^ 1024"
    by simp
  ultimately have "\<bar>binary64_round x\<bar> < 2 ^ 1024"
    by linarith
  then show ?thesis
    by (auto simp: binary64_def Let_def)
qed

subsection \<open>Floats of the script\<close>

lemma round_half_even_nearest:
  assumes "\<bar>x - of_int n\<bar> < 1 / 2"
  shows "round_half_even x = n"
proof -
  have "\<lfloor>x\<rfloor> = n \<or> \<lfloor>x\<rfloor> = n - 1"
    using assms by linarith
  then show ?thesis
    using assms by (auto simp: round_half_even_def Let_def)
qed

lemma binary64_nearest:
  assumes "- 1074 \<le> e" and "e \<le> 0"
    and "2 powi (e + 52) \<le> \<bar>x\<bar>" and "\<bar>x\<bar> < 2 powi (e + 53)"
    and "\<bar>x / 2 powi e - of_int n\<bar> < 1 / 2"
  shows "binary64 x = Fin (of_int n * 2 powi e)"
proof -
  have "(2::real) powi (e + 53) \<le> 2 powi 53"
    using assms(2) by (intro power_int_increasing) auto
  with assms(4) have "\<bar>x\<bar> < 2 ^ 53"
    by simp
  then have "binary64 x = Fin (binary64_round x)"
    by (rule binary64_finite)
  also have "binary64_round x = of_int (round_half_even (x / 2 powi e)) * 2 powi e"
    using assms(1-4) by (rule binary64_round_eval)
  also have "round_half_even (x / 2 powi e) = n"
    using assms(5) by (rule round_half_even_nearest)
  finally show ?thesis .
qed

lemma binary64_exact:
  assumes "x = of_int m * 2 powi j" and "\<bar>x\<bar> < 2 powi (j + 53)"
    and "\<bar>x\<bar> < 2 ^ 53" and "- 1074 \<le> j"
  shows "binary64 x = Fin x"
  using binary64_finite[OF assms(3)] binary64_round_exact[OF assms] by simp

lemma binary64_of_int:
  assumes "\<bar>n\<bar> < 2 ^ 53"
  shows "binary64 (of_int n) = Fin (of_int n)"
proof -
  have "\<bar>of_int n :: real\<bar> < 2 ^ 53"
    using assms by (metis of_int_abs of_int_less_numeral_power_cancel_iff)
  then show ?thesis
    by (intro binary64_exact[of _ n 0]) auto
qed

lemma binary64_half_int:
  assumes "\<bar>n\<bar> < 2 ^ 53"
  shows "binary64 (of_int n / 2) = Fin (of_int n / 2)"
proof -
  have "\<bar>of_int n :: real\<bar> < 2 ^ 53"
    using assms by (metis of_int_abs of_int_less_numeral_power_cancel_iff)
  then show ?thesis
    by (intro binary64_exact[of _ n "- 1"]) (auto simp: power_int_minus field_simps)
qed

text \<open>The float that the literal \<^verbatim>\<open>0.3\<close> denotes.\<close>

lemma float_three_tenths: "binary64 0.3 = Fin (5404319552844595 / 2 ^ 54)"
  using binary64_nearest[of "- 54" "0.3" 5404319552844595] by simp

subsection \<open>Middle-income classification\<close>

text \<open>
  C1. With the median 25968 the lower threshold is 0.75 * 25968 = 19476 and the
  upper one is 2 * MIDDLE_INCOME_UPPER_BOUND * median = 4 * 25968 = 103872. An
  equalized income of exactly 19476 is not middle-income (the lower comparison
  is strict), every income strictly between the thresholds is, and every income
  at or above 103872 is not.
\<close>

theorem C1_middle_income_thresholds:
  "MIDDLE_INCOME_LOWER_BOUND * EQUALIZED_INCOME_MEDIAN = 19476
   \<and> 2 * MIDDLE_INCOME_UPPER_BOUND * EQUALIZED_INCOME_MEDIAN = 4 * 25968
   \<and> 2 * MIDDLE_INCOME_UPPER_BOUND * EQUALIZED_INCOME_MEDIAN = 103872
   \<and> is_middle_income (Fin (0.75 * 25968)) = 0
   \<and> (0.75 * 25968 < x \<and> x < 4 * 25968 \<longrightarrow> is_middle_income (Fin x) = 1)
   \<and> (4 * 25968 \<le> x \<longrightarrow> is_middle_income (Fin x) = 0)"
  by (simp add: is_middle_income_def income_constants)

theorem C1_middle_income_thresholds_witness:
  "is_middle_income (Fin 19476) = 0
   \<and> is_middle_income (Fin 19476.01) = 1
   \<and> is_middle_income (Fin 103871.99) = 1
   \<and> is_middle_income (Fin 103872) = 0
   \<and> is_middle_income (Fin 200000) = 0"
  using C1_middle_income_thresholds [of "19476.01"]
    C1_middle_income_thresholds [of "103871.99"]
    C1_middle_income_thresholds [of 103872]
    C1_middle_income_thresholds [of 200000]
  by simp

text \<open>
  C2 (as stated). The claim puts an equalized income of exactly 0.75 * median
  inside the middle-income band. The code compares strictly: at 19476 the value
  satisfies the claim's condition 0.75 * median \<le> x < 4 * median and the flag is 0.
\<close>

theorem C2_lower_bound_counterexample:
  "0.75 * EQUALIZED_INCOME_MEDIAN \<le> 19476 \<and> 19476 < 4 * EQUALIZED_INCOME_MEDIAN
   \<and> is_middle_income (Fin 19476) \<noteq> 1 \<and> is_middle_income (Fin 19476) = 0"
  by (simp add: is_middle_income_def income_constants)

text \<open>
  C2 (amended). The middle-income flag is 1 if and only if
  0.75 * median < x < 4 * median, with median = 25968 and both comparisons
  strict; it is 0 or 1 for every value, and 0 for a missing one.
\<close>

theorem C2_middle_income_iff:
  "(is_middle_income (Fin x) = 1) =
     (0.75 * EQUALIZED_INCOME_MEDIAN < x \<and> x < 4 * EQUALIZED_INCOME_MEDIAN)
   \<and> is_middle_income NaN = 0
   \<and> (is_middle_income y = 0 \<or> is_middle_income y = 1)"
  by (simp add: is_middle_income_def income_constants)

theorem C2_middle_income_iff_witness:
  "is_middle_income (Fin 19476) \<noteq> 1 \<and> is_middle_income (Fin 19477) = 1
   \<and> is_middle_income (Fin 103872) \<noteq> 1"
  using C2_middle_income_iff [of 19476] C2_middle_income_iff [of 19477]
    C2_middle_income_iff [of 103872]
  by (simp add: income_constants)

subsection \<open>Consumption units\<close>

text \<open>
  For an adult count from 1 to \<open>2 ^ 52\<close> the term \<^verbatim>\<open>1 + 0.5 * (a - 1)\<close> is
  computed without any rounding.
\<close>

lemma adult_term_exact:
  fixes a :: int
  assumes "1 \<le> a" and "a \<le> 2 ^ 52"
  shows "num_add (Fin 1) (num_mul (Fin 0.5) (num_sub (Fin (of_int a)) (Fin 1)))
           = Fin (1 + 0.5 * (of_int a - 1))"
proof -
  have "num_sub (Fin (of_int a)) (Fin 1) = binary64 (of_int (a - 1))"
    by (simp add: num_sub_def)
  also have "\<dots> = Fin (of_int (a - 1))"
    using assms by (intro binary64_of_int) auto
  finally have sub: "num_sub (Fin (of_int a)) (Fin 1) = Fin (of_int (a - 1))" .
  have "num_mul (Fin 0.5) (Fin (of_int (a - 1))) = binary64 (of_int (a - 1) / 2)"
    by simp
  also have "\<dots> = Fin (of_int (a - 1) / 2)"
    using assms by (intro binary64_half_int) auto
  finally have mul: "num_mul (Fin 0.5) (Fin (of_int (a - 1))) = Fin (of_int (a - 1) / 2)" .
  have "num_add (Fin 1) (Fin (of_int (a - 1) / 2)) = binary64 (of_int (a + 1) / 2)"
    by (simp add: field_simps)
  also have "\<dots> = Fin (of_int (a + 1) / 2)"
    using assms by (intro binary64_half_int) auto
  finally have add: "num_add (Fin 1) (Fin (of_int (a - 1) / 2)) = Fin (of_int (a + 1) / 2)" .
  have "of_int (a + 1) / 2 = (1 + 0.5 * (of_int a - 1) :: real)"
    by (simp add: field_simps)
  with add show ?thesis
    by (simp only: sub mul)
qed

text \<open>Three roundings in a row, each by a factor of at most \<open>f\<close>, or at least \<open>g\<close>.\<close>

lemma rounding_chain_upper:
  fixes f :: real
  assumes "1 \<le> f" and "0 \<le> K" and "0 \<le> t"
    and "D \<le> K * f" and "p \<le> D * f" and "c \<le> (t + p) * f"
  shows "c \<le> (t + K) * f ^ 3"
proof -
  have "D * f \<le> K * f * f"
    using assms(1,4) by (intro mult_right_mono) auto
  with assms(5) have p: "p \<le> K * (f * f)"
    by (simp add: mult.assoc)
  have "1 * 1 \<le> f * f"
    using assms(1) by (intro mult_mono) auto
  then have "t * 1 \<le> t * (f * f)"
    using assms(3) by (intro mult_left_mono) auto
  with p have "t + p \<le> (t + K) * (f * f)"
    by (simp add: algebra_simps)
  then have "(t + p) * f \<le> (t + K) * (f * f) * f"
    using assms(1) by (intro mult_right_mono) auto
  with assms(6) show ?thesis
    by (simp add: power3_eq_cube mult.assoc)
qed

lemma rounding_chain_lower:
  fixes g :: real
  assumes "0 \<le> g" and "g \<le> 1" and "0 \<le> K" and "0 \<le> t"
    and "K * g \<le> D" and "D * g \<le> p" and "(t + p) * g \<le> c"
  shows "(t + K) * g ^ 3 \<le> c"
proof -
  have "K * g * g \<le> D * g"
    using assms(1,5) by (intro mult_right_mono) auto
  with assms(6) have p: "K * (g * g) \<le> p"
    by (simp add: mult.assoc)
  have "g * g \<le> 1 * 1"
    using assms(1,2) by (intro mult_mono) auto
  then have "t * (g * g) \<le> t * 1"
    using assms(4) by (intro mult_left_mono) auto
  with p have "(t + K) * (g * g) \<le> t + p"
    by (simp add: algebra_simps)
  then have "(t + K) * (g * g) * g \<le> (t + p) * g"
    using assms(1) by (intro mult_right_mono) auto
  with assms(7) show ?thesis
    by (simp add: power3_eq_cube mult.assoc)
qed

text \<open>
  The value of the lambda on counts up to \<open>2 ^ 52\<close>: the exact term of the
  adults plus the rounded product for the children, rounded once more. Each of
  the three roundings (of three tenths, of the product and of the sum) changes
  its result by a factor between \<open>1 - 2 powi - 53\<close> and \<open>1 + 2 powi - 53\<close>.
\<close>

lemma cons_unit_counts:
  fixes a k :: int
  assumes "1 \<le> a" and "a \<le> 2 ^ 52" and "0 \<le> k" and "k \<le> 2 ^ 52"
  defines "exact \<equiv> 1 + 0.5 * (of_int a - 1) + 0.3 * of_int k"
  shows "\<exists>c. cons_unit (PInt a) (PInt k) = Inr (Fin c) \<and> \<bar>c - exact\<bar> \<le> exact / 2 ^ 51
            \<and> (k = 0 \<longrightarrow> c = exact)"
proof -
  define t :: real where "t = 1 + 0.5 * (of_int a - 1)"
  define K :: real where "K = of_int k"
  define D :: real where "D = 5404319552844595 / 2 ^ 54 * K"
  define p where "p = binary64_round D"
  define c where "c = binary64_round (t + p)"
  have a: "1 \<le> (of_int a :: real)" "(of_int a :: real) \<le> 2 ^ 52"
    using assms(1,2) by (simp, metis of_int_le_numeral_power_cancel_iff)
  have K: "0 \<le> K" "K \<le> 2 ^ 52"
    unfolding K_def using assms(3,4) by (simp, metis of_int_le_numeral_power_cancel_iff)
  have t: "1 \<le> t" "t \<le> 2 ^ 52"
    using a by (simp_all add: t_def)
  have D: "0 \<le> D" "D \<le> K / 2" "K / 4 \<le> D"
    using K by (simp_all add: D_def)
  define f :: real where "f = 1 + 1 / 2 ^ 53"
  define g :: real where "g = 1 - 1 / 2 ^ 53"
  have near_D: "D \<le> 0.3 * K * f" "0.3 * K * g \<le> D"
    using K by (simp_all add: D_def f_def g_def)
  have small: "\<bar>D\<bar> < 2 ^ 53"
    using D K by simp
  have "\<bar>p - D\<bar> \<le> D / 2 ^ 53"
  proof (cases "k = 0")
    case True
    then show ?thesis
      by (simp add: p_def D_def K_def binary64_round_0)
  next
    case False
    with assms(3) have "1 \<le> K"
      by (simp add: K_def)
    moreover have "(2::real) powi (- 1022) \<le> 1 / 4"
      by (simp add: power_int_minus field_simps)
    ultimately have "2 powi (- 1022) \<le> \<bar>D\<bar>"
      using D by linarith
    from binary64_round_error[OF this small] D show ?thesis
      by (simp add: p_def)
  qed
  then have "p \<le> D + D / 2 ^ 53" "D - D / 2 ^ 53 \<le> p"
    by linarith+
  then have near_p: "p \<le> D * f" "D * g \<le> p"
    by (simp_all add: f_def g_def algebra_simps)
  have p: "0 \<le> p" "p \<le> 3 / 4 * K"
    using near_p D K by (simp_all add: f_def g_def algebra_simps)
  then have sum: "\<bar>t + p\<bar> < 2 ^ 53"
    using t K by simp
  have "(2::real) powi (- 1022) \<le> 1"
    by (simp add: power_int_minus field_simps)
  with t p have "2 powi (- 1022) \<le> \<bar>t + p\<bar>"
    by linarith
  from binary64_round_error[OF this sum] t p have "\<bar>c - (t + p)\<bar> \<le> (t + p) / 2 ^ 53"
    by (simp add: c_def)
  moreover have "(t + p) * f = t + p + (t + p) / 2 ^ 53" "(t + p) * g = t + p - (t + p) / 2 ^ 53"
    by (simp_all add: f_def g_def field_simps)
  ultimately have near_c: "c \<le> (t + p) * f" "(t + p) * g \<le> c"
    by linarith+
  have adults: "num_add (Fin 1) (num_mul (Fin 0.5) (num_sub (Fin (of_int a)) (Fin 1))) = Fin t"
    unfolding t_def using assms(1,2) by (rule adult_term_exact)
  have "to_float (Fin (of_int k)) = Fin K"
    unfolding K_def using assms(3,4) by (simp add: binary64_of_int)
  moreover have "num_mul (Fin (5404319552844595 / 2 ^ 54)) (Fin K) = Fin p"
    using binary64_finite[OF small] by (simp add: p_def D_def)
  moreover have "num_add (Fin t) (Fin p) = Fin c"
    using binary64_finite[OF sum] by (simp add: c_def)
  ultimately have run: "cons_unit (PInt a) (PInt k) = Inr (Fin c)"
    by (simp only: cons_unit_def PInt_def adults float_three_tenths prod.case pyval.case)
  have exact: "exact = t + 0.3 * K"
    by (simp add: exact_def t_def K_def)
  have "0 \<le> exact"
    using t K by (simp add: exact)
  have "c \<le> exact * f ^ 3"
    unfolding exact using t K near_D(1) near_p(1) near_c(1)
    by (intro rounding_chain_upper[of f "0.3 * K" t D p c]) (simp_all add: f_def)
  also have "\<dots> \<le> exact * (1 + 1 / 2 ^ 51)"
    using \<open>0 \<le> exact\<close> by (intro mult_left_mono) (simp_all add: f_def power3_eq_cube)
  finally have upper: "c - exact \<le> exact / 2 ^ 51"
    by (simp add: algebra_simps)
  have "exact * (1 - 1 / 2 ^ 51) \<le> exact * g ^ 3"
    using \<open>0 \<le> exact\<close> by (intro mult_left_mono) (simp_all add: g_def power3_eq_cube)
  also have "\<dots> \<le> c"
    unfolding exact using t K near_D(2) near_p(2) near_c(2)
    by (intro rounding_chain_lower[of g "0.3 * K" t D p c]) (simp_all add: g_def)
  finally have lower: "exact - c \<le> exact / 2 ^ 51"
    by (simp add: algebra_simps)
  from upper lower have bound: "\<bar>c - exact\<bar> \<le> exact / 2 ^ 51"
    by linarith
  have "binary64_round t = t"
    using a by (intro binary64_round_exact[of t "a + 1" "- 1"])
      (auto simp: t_def power_int_minus field_simps)
  then have "c = exact" if "k = 0"
    using that by (simp add: c_def p_def D_def K_def exact binary64_round_0)
  with run bound show ?thesis
    by blast
qed

text \<open>
  The lambda on two \<^verbatim>\<open>int\<close> counts, once the two roundings that are not exact are
  known.
\<close>

lemma cons_unit_value:
  fixes a k :: int
  assumes "1 \<le> a" and "a \<le> 2 ^ 52" and "\<bar>k\<bar> < 2 ^ 53"
    and "binary64 (5404319552844595 / 2 ^ 54 * of_int k) = Fin p"
    and "binary64 (1 + 0.5 * (of_int a - 1) + p) = Fin c"
  shows "cons_unit (PInt a) (PInt k) = Inr (Fin c)"
proof -
  have k: "to_float (Fin (of_int k)) = Fin (of_int k)"
    using assms(3) by (simp add: binary64_of_int)
  have "cons_unit (PInt a) (PInt k)
          = Inr (num_add (Fin (1 + 0.5 * (of_int a - 1)))
                   (num_mul (Fin (5404319552844595 / 2 ^ 54)) (Fin (of_int k))))"
    by (simp only: cons_unit_def PInt_def prod.case pyval.case
        adult_term_exact[OF assms(1,2)] float_three_tenths k)
  also have "num_mul (Fin (5404319552844595 / 2 ^ 54)) (Fin (of_int k)) = Fin p"
    by (simp only: num_mul.simps assms(4))
  also have "num_add (Fin (1 + 0.5 * (of_int a - 1))) (Fin p) = Fin c"
    by (simp only: num_add.simps assms(5))
  finally show ?thesis .
qed

lemma cons_unit_1_0: "cons_unit (PInt 1) (PInt 0) = Inr (Fin 1)"
proof (rule cons_unit_value[where p = 0])
  show "binary64 (5404319552844595 / 2 ^ 54 * of_int 0) = Fin 0"
    using binary64_of_int[of 0] by simp
  show "binary64 (1 + 0.5 * (of_int 1 - 1) + 0) = Fin 1"
    using binary64_of_int[of 1] by simp
qed simp_all

lemma float_2_6: "binary64 2.6 = Fin (5854679515581645 / 2 ^ 51)"
  using binary64_nearest[of "- 51" "2.6" 5854679515581645] by simp

lemma cons_unit_3_2: "cons_unit (PInt 3) (PInt 2) = Inr (Fin (5854679515581645 / 2 ^ 51))"
proof (rule cons_unit_value[where p = "5404319552844595 / 2 ^ 53"])
  show "binary64 (5404319552844595 / 2 ^ 54 * of_int 2) = Fin (5404319552844595 / 2 ^ 53)"
    using binary64_nearest[of "- 53" "5404319552844595 / 2 ^ 53" 5404319552844595] by simp
  show "binary64 (1 + 0.5 * (of_int 3 - 1) + 5404319552844595 / 2 ^ 53)
          = Fin (5854679515581645 / 2 ^ 51)"
    using binary64_nearest[of "- 51" "2 + 5404319552844595 / 2 ^ 53" 5854679515581645] by simp
qed simp_all

lemma float_3_7: "binary64 3.7 = Fin (8331659310635418 / 2 ^ 51)"
  using binary64_nearest[of "- 51" "3.7" 8331659310635418] by simp

lemma cons_unit_1_9: "cons_unit (PInt 1) (PInt 9) = Inr (Fin (8331659310635417 / 2 ^ 51))"
proof (rule cons_unit_value[where p = "6079859496950169 / 2 ^ 51"])
  show "binary64 (5404319552844595 / 2 ^ 54 * of_int 9) = Fin (6079859496950169 / 2 ^ 51)"
    using binary64_nearest[of "- 51" "5404319552844595 / 2 ^ 54 * 9" 6079859496950169] by simp
  show "binary64 (1 + 0.5 * (of_int 1 - 1) + 6079859496950169 / 2 ^ 51)
          = Fin (8331659310635417 / 2 ^ 51)"
    using binary64_nearest[of "- 51" "1 + 6079859496950169 / 2 ^ 51" 8331659310635417] by simp
qed simp_all

lemma float_1_3: "binary64 1.3 = Fin (5854679515581645 / 2 ^ 52)"
  using binary64_nearest[of "- 52" "1.3" 5854679515581645] by simp

lemma cons_unit_1_1: "cons_unit (PInt 1) (PInt 1) = Inr (Fin (5854679515581645 / 2 ^ 52))"
proof (rule cons_unit_value[where p = "5404319552844595 / 2 ^ 54"])
  show "binary64 (5404319552844595 / 2 ^ 54 * of_int 1) = Fin (5404319552844595 / 2 ^ 54)"
    using binary64_nearest[of "- 54" "5404319552844595 / 2 ^ 54" 5404319552844595] by simp
  show "binary64 (1 + 0.5 * (of_int 1 - 1) + 5404319552844595 / 2 ^ 54)
          = Fin (5854679515581645 / 2 ^ 52)"
    using binary64_nearest[of "- 52" "1 + 5404319552844595 / 2 ^ 54" 5854679515581645] by simp
qed simp_all

lemma float_quotient: "binary64 (25000 / 1.3) = Fin (5286113595076923 / 2 ^ 38)"
  using binary64_nearest[of "- 38" "25000 / 1.3" 5286113595076923] by simp

lemma eq_hs_income_25000:
  "eq_hs_income 25000 (Fin (5854679515581645 / 2 ^ 52)) = Inr (Fin (5286113595076923 / 2 ^ 38))"
  using binary64_nearest[of "- 38" "25000 / (5854679515581645 / 2 ^ 52)" 5286113595076923]
  by (simp add: eq_hs_income_def)

lemma transform_row_cons_unit:
  assumes "transform_row r = Inr c"
  shows "cons_unit (household_members_gt13 c) (household_members_le13 c) = Inr (cons_unit_col c)"
  using assms by (auto simp: transform_row_def Let_def split: sum.splits)

lemma transform_row_result:
  assumes "cons_unit (fix_household_members_gt13 (household_members_gt13 r))
             (household_members_le13 r) = Inr cu"
    and "eq_hs_income (getAvgForIncomeRange (fix_income_range (income_range r))) cu = Inr eq"
  shows "\<exists>c. transform_row r = Inr c
            \<and> household_members_gt13 c = fix_household_members_gt13 (household_members_gt13 r)
            \<and> household_members_le13 c = household_members_le13 r
            \<and> avg_income c = getAvgForIncomeRange (fix_income_range (income_range r))
            \<and> cons_unit_col c = cu
            \<and> eq_hs_income_col c = eq
            \<and> is_middle_income_col c = is_middle_income eq"
  using assms by (simp add: transform_row_def Let_def)

lemma bracket_20_30:
  "getAvgForIncomeRange (fix_income_range
      (Str (''20 000 K'' @ c_caron @ '' '' @ en_dash @ '' 30 000 K'' @ c_caron))) = 25000"
  by (simp add: fix_income_range_def series_replace_def getAvgForIncomeRange_def)

text \<open>
  C4 (as stated). The claim equates the consumption-unit value with
  1 + 0.5 * (a - 1) + 0.3 * k. The code evaluates the expression in binary
  floating point: for one adult and nine children, which satisfy a \<ge> 1 and
  k \<ge> 0, it returns 8331659310635417 / 2^51 (printed 3.6999999999999997), which
  is neither 1 + 0.5 * 0 + 0.3 * 9 = 3.7 nor the float nearest to 3.7.
\<close>

theorem C4_rounding_counterexample:
  "(1::int) \<le> 1 \<and> (0::int) \<le> 9
   \<and> cons_unit (PInt 1) (PInt 9) = Inr (Fin (8331659310635417 / 2 ^ 51))
   \<and> cons_unit (PInt 1) (PInt 9) \<noteq> Inr (Fin (1 + 0.5 * (1 - 1) + 0.3 * 9))
   \<and> (1 + 0.5 * (1 - 1) + 0.3 * 9 :: real) = 3.7
   \<and> cons_unit (PInt 1) (PInt 9) \<noteq> Inr (binary64 3.7)"
  by (simp add: cons_unit_1_9 float_3_7)

text \<open>
  C4 (amended). For a corrected adult count a and a child count k, integers
  with 1 \<le> a \<le> 2^52 and 0 \<le> k \<le> 2^52, the lambda returns a float c that
  differs from 1 + 0.5 * (a - 1) + 0.3 * k by at most that value divided by
  2^51, and equals it when k = 0. The term 1 + 0.5 * (a - 1) is computed without
  rounding and is at least 1. The value is 1.0 for (1, 0) and the float 2.6 for
  (3, 2). The \<^verbatim>\<open>cons_unit\<close> column of a transformed row is the lambda's value on
  the row's corrected counts.
\<close>

theorem C4_cons_unit:
  fixes a k :: int
  assumes "1 \<le> a" and "a \<le> 2 ^ 52" and "0 \<le> k" and "k \<le> 2 ^ 52"
  shows "(\<exists>c. cons_unit (PInt a) (PInt k) = Inr (Fin c)
            \<and> \<bar>c - (1 + 0.5 * (of_int a - 1) + 0.3 * of_int k)\<bar>
                \<le> (1 + 0.5 * (of_int a - 1) + 0.3 * of_int k) / 2 ^ 51
            \<and> (k = 0 \<longrightarrow> c = 1 + 0.5 * (of_int a - 1)))
    \<and> num_add (Fin 1) (num_mul (Fin 0.5) (num_sub (Fin (of_int a)) (Fin 1)))
          = Fin (1 + 0.5 * (of_int a - 1))
    \<and> (1::real) \<le> 1 + 0.5 * (of_int a - 1)
    \<and> cons_unit (PInt 1) (PInt 0) = Inr (Fin 1.0)
    \<and> cons_unit (PInt 3) (PInt 2) = Inr (binary64 2.6)
    \<and> (transform_row r = Inr row
         \<longrightarrow> cons_unit (household_members_gt13 row) (household_members_le13 row)
               = Inr (cons_unit_col row))"
proof -
  from cons_unit_counts[OF assms] obtain c where
    c: "cons_unit (PInt a) (PInt k) = Inr (Fin c)"
      "\<bar>c - (1 + 0.5 * (of_int a - 1) + 0.3 * of_int k)\<bar>
         \<le> (1 + 0.5 * (of_int a - 1) + 0.3 * of_int k) / 2 ^ 51"
      "k = 0 \<longrightarrow> c = 1 + 0.5 * (of_int a - 1) + 0.3 * of_int k"
    by blast
  from c(3) have "k = 0 \<longrightarrow> c = 1 + 0.5 * (of_int a - 1)"
    by simp
  with c(1,2) have result: "\<exists>c. cons_unit (PInt a) (PInt k) = Inr (Fin c)
            \<and> \<bar>c - (1 + 0.5 * (of_int a - 1) + 0.3 * of_int k)\<bar>
                \<le> (1 + 0.5 * (of_int a - 1) + 0.3 * of_int k) / 2 ^ 51
            \<and> (k = 0 \<longrightarrow> c = 1 + 0.5 * (of_int a - 1))"
    by blast
  have adults: "num_add (Fin 1) (num_mul (Fin 0.5) (num_sub (Fin (of_int a)) (Fin 1)))
          = Fin (1 + 0.5 * (of_int a - 1))"
    using assms(1,2) by (rule adult_term_exact)
  have bound: "(1::real) \<le> 1 + 0.5 * (of_int a - 1)"
    using assms(1) by simp
  have one: "cons_unit (PInt 1) (PInt 0) = Inr (Fin 1.0)"
    by (simp add: cons_unit_1_0)
  have two: "cons_unit (PInt 3) (PInt 2) = Inr (binary64 2.6)"
    by (simp only: cons_unit_3_2 float_2_6)
  have column: "transform_row r = Inr row
         \<longrightarrow> cons_unit (household_members_gt13 row) (household_members_le13 row)
               = Inr (cons_unit_col row)"
    by (simp add: transform_row_cons_unit)
  from result adults bound one two column show ?thesis
    by (intro conjI)
qed

theorem C4_cons_unit_witness:
  "(1::int) \<le> 3 \<and> (3::int) \<le> 2 ^ 52 \<and> (0::int) \<le> 2 \<and> (2::int) \<le> 2 ^ 52
   \<and> cons_unit (PInt 3) (PInt 2) = Inr (Fin (5854679515581645 / 2 ^ 51))
   \<and> \<bar>5854679515581645 / 2 ^ 51 - (1 + 0.5 * (3 - 1) + 0.3 * 2)\<bar>
        \<le> ((1 + 0.5 * (3 - 1) + 0.3 * 2) / 2 ^ 51 :: real)
   \<and> (\<exists>row. transform_row (example_row (PInt 3) (PInt 2)) = Inr row
          \<and> household_members_gt13 row = PInt 3
          \<and> household_members_le13 row = PInt 2
          \<and> cons_unit_col row = Fin (5854679515581645 / 2 ^ 51))"
proof -
  have "\<exists>e. eq_hs_income 25000 (Fin (5854679515581645 / 2 ^ 51)) = Inr e"
    by (simp add: eq_hs_income_def)
  then obtain e where e: "eq_hs_income 25000 (Fin (5854679515581645 / 2 ^ 51)) = Inr e" ..
  have adults: "fix_household_members_gt13 (PInt 3) = PInt 3"
    by (simp add: fix_household_members_gt13_def series_replace_def PInt_def)
  have cu: "cons_unit (fix_household_members_gt13 (household_members_gt13 (example_row (PInt 3) (PInt 2))))
              (household_members_le13 (example_row (PInt 3) (PInt 2)))
            = Inr (Fin (5854679515581645 / 2 ^ 51))"
    by (simp add: example_row_def adults cons_unit_3_2)
  have eq: "eq_hs_income (getAvgForIncomeRange (fix_income_range
                (income_range (example_row (PInt 3) (PInt 2)))))
              (Fin (5854679515581645 / 2 ^ 51)) = Inr e"
    by (simp only: example_row_def raw_row.simps bracket_20_30 e)
  from transform_row_result[OF cu eq] obtain row where
    row: "transform_row (example_row (PInt 3) (PInt 2)) = Inr row"
      "household_members_gt13 row = PInt 3" "household_members_le13 row = PInt 2"
    by (auto simp: example_row_def adults)
  have counts: "(1::int) \<le> 3" "(3::int) \<le> 2 ^ 52" "(0::int) \<le> 2" "(2::int) \<le> 2 ^ 52"
    by simp_all
  from C4_cons_unit [OF counts, of "example_row (PInt 3) (PInt 2)" row]
  have "transform_row (example_row (PInt 3) (PInt 2)) = Inr row
         \<longrightarrow> cons_unit (household_members_gt13 row) (household_members_le13 row)
               = Inr (cons_unit_col row)"
    by blast
  with row have "cons_unit (PInt 3) (PInt 2) = Inr (cons_unit_col row)"
    by simp
  then have "cons_unit_col row = Fin (5854679515581645 / 2 ^ 51)"
    by (simp only: cons_unit_3_2 sum.inject)
  moreover have "\<bar>5854679515581645 / 2 ^ 51 - (1 + 0.5 * (3 - 1) + 0.3 * 2)\<bar>
        \<le> ((1 + 0.5 * (3 - 1) + 0.3 * 2) / 2 ^ 51 :: real)"
    by simp
  ultimately show ?thesis
    using row counts cons_unit_3_2 by blast
qed

text \<open>
  C5. A row with income_range "20 000 Kc - 30 000 Kc" (in the survey's
  spelling), household_members_gt13 = 0 and household_members_le13 = 1 goes
  through without an exception and comes out with the corrected adult count 1,
  avg_income 25000, cons_unit the float 1.3, eq_hs_income the float nearest to
  25000 / 1.3, which is 19230.77 to two decimals and below
  0.75 * 25968 = 19476, and the middle-income flag 0.
\<close>

theorem C5_end_to_end:
  assumes "income_range r = Str (''20 000 K'' @ c_caron @ '' '' @ en_dash @ '' 30 000 K'' @ c_caron)"
    and "household_members_gt13 r = PInt 0"
    and "household_members_le13 r = PInt 1"
  shows "(\<exists>c. transform_row r = Inr c
            \<and> household_members_gt13 c = PInt 1
            \<and> avg_income c = 25000
            \<and> cons_unit_col c = binary64 1.3
            \<and> eq_hs_income_col c = binary64 (25000 / 1.3)
            \<and> is_middle_income_col c = 0)
         \<and> binary64 1.3 = Fin (5854679515581645 / 2 ^ 52)
         \<and> binary64 (25000 / 1.3) = Fin (5286113595076923 / 2 ^ 38)
         \<and> \<bar>5286113595076923 / 2 ^ 38 - 19230.77\<bar> < (0.005 :: real)
         \<and> 5286113595076923 / 2 ^ 38 < 0.75 * EQUALIZED_INCOME_MEDIAN
         \<and> 0.75 * EQUALIZED_INCOME_MEDIAN = 19476"
proof -
  have adults: "fix_household_members_gt13 (PInt 0) = PInt 1"
    by (simp add: fix_household_members_gt13_def series_replace_def PInt_def)
  have flag: "is_middle_income (Fin (5286113595076923 / 2 ^ 38)) = 0"
    by (simp add: is_middle_income_def income_constants)
  have cu: "cons_unit (fix_household_members_gt13 (household_members_gt13 r))
              (household_members_le13 r) = Inr (Fin (5854679515581645 / 2 ^ 52))"
    by (simp only: assms adults cons_unit_1_1)
  have eq: "eq_hs_income (getAvgForIncomeRange (fix_income_range (income_range r)))
              (Fin (5854679515581645 / 2 ^ 52)) = Inr (Fin (5286113595076923 / 2 ^ 38))"
    by (simp only: assms bracket_20_30 eq_hs_income_25000)
  from transform_row_result[OF cu eq] obtain c where
    "transform_row r = Inr c" "household_members_gt13 c = PInt 1" "avg_income c = 25000"
    "cons_unit_col c = binary64 1.3" "eq_hs_income_col c = binary64 (25000 / 1.3)"
    "is_middle_income_col c = 0"
    by (auto simp only: assms adults bracket_20_30 flag float_1_3 float_quotient)
  then have "\<exists>c. transform_row r = Inr c
            \<and> household_members_gt13 c = PInt 1
            \<and> avg_income c = 25000
            \<and> cons_unit_col c = binary64 1.3
            \<and> eq_hs_income_col c = binary64 (25000 / 1.3)
            \<and> is_middle_income_col c = 0"
    by blast
  moreover have "\<bar>5286113595076923 / 2 ^ 38 - 19230.77\<bar> < (0.005 :: real)"
    "5286113595076923 / 2 ^ 38 < 0.75 * EQUALIZED_INCOME_MEDIAN"
    "0.75 * EQUALIZED_INCOME_MEDIAN = 19476"
    by (simp_all add: income_constants)
  ultimately show ?thesis
    using float_1_3 float_quotient by (intro conjI)
qed

theorem C5_end_to_end_witness:
  "income_range (example_row (PInt 0) (PInt 1))
     = Str (''20 000 K'' @ c_caron @ '' '' @ en_dash @ '' 30 000 K'' @ c_caron)
   \<and> household_members_gt13 (example_row (PInt 0) (PInt 1)) = PInt 0
   \<and> household_members_le13 (example_row (PInt 0) (PInt 1)) = PInt 1
   \<and> (\<exists>c. transform_row (example_row (PInt 0) (PInt 1)) = Inr c
          \<and> household_members_gt13 c = PInt 1
          \<and> avg_income c = 25000
          \<and> cons_unit_col c = Fin (5854679515581645 / 2 ^ 52)
          \<and> eq_hs_income_col c = Fin (5286113595076923 / 2 ^ 38)
          \<and> is_middle_income_col c = 0)"
proof -
  have r: "income_range (example_row (PInt 0) (PInt 1))
             = Str (''20 000 K'' @ c_caron @ '' '' @ en_dash @ '' 30 000 K'' @ c_caron)"
    "household_members_gt13 (example_row (PInt 0) (PInt 1)) = PInt 0"
    "household_members_le13 (example_row (PInt 0) (PInt 1)) = PInt 1"
    by (simp_all add: example_row_def)
  from C5_end_to_end [OF r] r show ?thesis
    by (auto simp only: float_1_3 float_quotient)
qed

subsection \<open>Mapping functions, value fixes and recoding\<close>

text \<open>
  C6. \<^verbatim>\<open>getAvgForSavingRange\<close> returns -1000, 0, 750, 2000, 4000 and 6000 on the
  six bracket strings that the source lists, and 9000 on every other argument,
  text or not, a missing value included: that covers the top bracket of the
  survey, which the source leaves to the \<^verbatim>\<open>else\<close> branch. The function is total
  and its result is one of these seven integers.
\<close>

theorem C6_getAvgForSavingRange:
  "getAvgForSavingRange (Str (''Vytv'' @ a_acute @ r_caron @ i_acute @ ''me deficit (v'' @ y_acute
          @ ''daje znateln'' @ e_caron @ '' p'' @ r_caron @ ''evy'' @ s_caron @ ''uj'' @ i_acute
          @ '' p'' @ r_caron @ i_acute @ ''jmy)'')) = - 1000
   \<and> getAvgForSavingRange (Str (''Nespo'' @ r_caron @ i_acute @ ''me (v'' @ y_acute @ ''daje se p''
          @ r_caron @ ''ibli'' @ z_caron @ ''n'' @ e_caron @ '' rovnaj'' @ i_acute @ '' p''
          @ r_caron @ i_acute @ ''jm'' @ u_ring @ ''m, '' @ plus_minus @ '' 500 K'' @ c_caron
          @ '')'')) = 0
   \<and> getAvgForSavingRange (Str (''500 a'' @ z_caron @ '' 1 000 K'' @ c_caron)) = 750
   \<and> getAvgForSavingRange (Str (''1000 a'' @ z_caron @ '' 3 000 K'' @ c_caron)) = 2000
   \<and> getAvgForSavingRange (Str (''3 000 a'' @ z_caron @ '' 5 000 K'' @ c_caron)) = 4000
   \<and> getAvgForSavingRange (Str (''5 000 a'' @ z_caron @ '' 7 000 K'' @ c_caron)) = 6000
   \<and> (v \<notin> {Str (''Vytv'' @ a_acute @ r_caron @ i_acute @ ''me deficit (v'' @ y_acute
          @ ''daje znateln'' @ e_caron @ '' p'' @ r_caron @ ''evy'' @ s_caron @ ''uj'' @ i_acute
          @ '' p'' @ r_caron @ i_acute @ ''jmy)''),
        Str (''Nespo'' @ r_caron @ i_acute @ ''me (v'' @ y_acute @ ''daje se p''
          @ r_caron @ ''ibli'' @ z_caron @ ''n'' @ e_caron @ '' rovnaj'' @ i_acute @ '' p''
          @ r_caron @ i_acute @ ''jm'' @ u_ring @ ''m, '' @ plus_minus @ '' 500 K'' @ c_caron
          @ '')''),
        Str (''500 a'' @ z_caron @ '' 1 000 K'' @ c_caron),
        Str (''1000 a'' @ z_caron @ '' 3 000 K'' @ c_caron),
        Str (''3 000 a'' @ z_caron @ '' 5 000 K'' @ c_caron),
        Str (''5 000 a'' @ z_caron @ '' 7 000 K'' @ c_caron)}
      \<longrightarrow> getAvgForSavingRange v = 9000)
   \<and> getAvgForSavingRange (Num NaN) = 9000
   \<and> getAvgForSavingRange v \<in> {- 1000, 0, 750, 2000, 4000, 6000, 9000}"
  by (simp add: getAvgForSavingRange_def)

theorem C6_getAvgForSavingRange_witness:
  "getAvgForSavingRange (Str (''7 000 K'' @ c_caron @ '' a v'' @ i_acute @ ''ce'')) = 9000
   \<and> getAvgForSavingRange (Str []) = 9000
   \<and> getAvgForSavingRange (Num (Fin 750)) = 9000"
  using C6_getAvgForSavingRange [of "Str (''7 000 K'' @ c_caron @ '' a v'' @ i_acute @ ''ce'')"]
    C6_getAvgForSavingRange [of "Str []"] C6_getAvgForSavingRange [of "Num (Fin 750)"]
  by simp

text \<open>
  C7. The fix of the household adult count maps 0 to 1, leaves every other
  value unchanged (a missing value and text included), and is idempotent:
  fix (fix x) = fix x for every x; in particular the corrected value 1 stays 1.
\<close>

theorem C7_fix_household_members_gt13:
  "fix_household_members_gt13 (PInt 0) = PInt 1
   \<and> (x \<noteq> PInt 0 \<longrightarrow> fix_household_members_gt13 x = x)
   \<and> fix_household_members_gt13 (PInt 1) = PInt 1
   \<and> fix_household_members_gt13 (fix_household_members_gt13 x) = fix_household_members_gt13 x"
proof -
  have eq0: "py_eq x (PInt 0) = (x = PInt 0)"
    by (cases "(x, PInt 0)" rule: py_eq.cases) (simp_all add: PInt_def)
  show ?thesis
    by (simp add: fix_household_members_gt13_def series_replace_def eq0)
       (simp add: PInt_def)
qed

theorem C7_fix_household_members_gt13_witness:
  "PInt 2 \<noteq> PInt 0 \<and> fix_household_members_gt13 (PInt 2) = PInt 2
   \<and> Num NaN \<noteq> PInt 0 \<and> fix_household_members_gt13 (Num NaN) = Num NaN
   \<and> fix_household_members_gt13 (fix_household_members_gt13 (PInt 0)) = PInt 1"
  using C7_fix_household_members_gt13 [of "PInt 2"] C7_fix_household_members_gt13 [of "Num NaN"]
    C7_fix_household_members_gt13 [of "PInt 0"]
  by (simp add: PInt_def)

text \<open>
  C9. \<^verbatim>\<open>decisionStrategyMapping\<close> returns 3 and 1 on the two decision-strategy
  answers it lists, 0 on the string "Zridka (jen pokud je to nezbytne)" (in the
  survey's spelling), which is an answer of the risk-encounter-frequency
  question, where it has the code 1, and the default 2 on every other argument.
  The codes are 0 to 3, so the default is not the lowest one.
\<close>

theorem C9_decisionStrategyMapping:
  "decisionStrategyMapping (Str (''D'' @ e_caron @ ''l'' @ a_acute @ ''m rychl'' @ a_acute
        @ '' rozhodnut'' @ i_acute @ '' na z'' @ a_acute @ ''klad'' @ e_caron @ '' prvn'' @ i_acute
        @ ''ch dojm'' @ u_ring)) = 3
   \<and> decisionStrategyMapping (Str (''Rozhoduji se uv'' @ a_acute @ z_caron @ ''liv'' @ e_caron
        @ '', ale nepot'' @ r_caron @ ''ebuji dlouhou dobu'')) = 1
   \<and> decisionStrategyMapping (Str (''Z'' @ r_caron @ i_acute @ ''dka (jen pokud je to nezbytn''
        @ e_acute @ '')'')) = 0
   \<and> riskEncounterFrequencyMapping (Str (''Z'' @ r_caron @ i_acute
        @ ''dka (jen pokud je to nezbytn'' @ e_acute @ '')'')) = 1
   \<and> (v \<notin> {Str (''D'' @ e_caron @ ''l'' @ a_acute @ ''m rychl'' @ a_acute
        @ '' rozhodnut'' @ i_acute @ '' na z'' @ a_acute @ ''klad'' @ e_caron @ '' prvn'' @ i_acute
        @ ''ch dojm'' @ u_ring),
        Str (''Rozhoduji se uv'' @ a_acute @ z_caron @ ''liv'' @ e_caron
        @ '', ale nepot'' @ r_caron @ ''ebuji dlouhou dobu''),
        Str (''Z'' @ r_caron @ i_acute @ ''dka (jen pokud je to nezbytn'' @ e_acute @ '')'')}
      \<longrightarrow> decisionStrategyMapping v = 2)
   \<and> decisionStrategyMapping v \<in> {0, 1, 2, 3}"
  by (simp add: decisionStrategyMapping_def riskEncounterFrequencyMapping_def)

theorem C9_decisionStrategyMapping_witness:
  "decisionStrategyMapping (Str ''Rozhoduji se pomalu'') = 2
   \<and> decisionStrategyMapping (Num NaN) = 2
   \<and> decisionStrategyMapping (Str (''Ob'' @ c_caron @ ''as (pokud m'' @ a_acute @ ''m pocit, ''
        @ z_caron @ ''e riziko stoj'' @ i_acute @ '' za to)'')) = 2"
  using C9_decisionStrategyMapping [of "Str ''Rozhoduji se pomalu''"]
    C9_decisionStrategyMapping [of "Num NaN"]
    C9_decisionStrategyMapping [of "Str (''Ob'' @ c_caron @ ''as (pokud m'' @ a_acute
        @ ''m pocit, '' @ z_caron @ ''e riziko stoj'' @ i_acute @ '' za to)'')"]
  by simp

text \<open>
  C10. The recoding of is_investing_time_consuming is a substitution: "Ano"
  becomes 1, "Ne" becomes 0, and every other value, a missing one or any other
  text, comes out as it went in; there is no fallback code.
\<close>

theorem C10_recode_is_investing_time_consuming:
  "recode_is_investing_time_consuming (Str ''Ano'') = PInt 1
   \<and> recode_is_investing_time_consuming (Str ''Ne'') = PInt 0
   \<and> (v \<noteq> Str ''Ano'' \<and> v \<noteq> Str ''Ne'' \<longrightarrow> recode_is_investing_time_consuming v = v)"
proof (cases v)
  case (Str s)
  then show ?thesis
    by (simp add: recode_is_investing_time_consuming_def series_replace_def PInt_def)
next
  case (Num n)
  then show ?thesis
    by (cases n)
       (simp_all add: recode_is_investing_time_consuming_def series_replace_def PInt_def)
qed

theorem C10_recode_is_investing_time_consuming_witness:
  "Str ''Nevim'' \<noteq> Str ''Ano'' \<and> Str ''Nevim'' \<noteq> Str ''Ne''
   \<and> recode_is_investing_time_consuming (Str ''Nevim'') = Str ''Nevim''
   \<and> Num NaN \<noteq> Str ''Ano'' \<and> Num NaN \<noteq> Str ''Ne''
   \<and> recode_is_investing_time_consuming (Num NaN) = Num NaN
   \<and> recode_is_investing_time_consuming (Str ''ano'') = Str ''ano''"
  using C10_recode_is_investing_time_consuming [of "Str ''Nevim''"]
    C10_recode_is_investing_time_consuming [of "Num NaN"]
    C10_recode_is_investing_time_consuming [of "Str ''ano''"]
  by simp

subsection \<open>Paths\<close>

lemma tail_no_sep: "sep \<notin> set (snd (os_path_split p))"
  using set_takeWhileD[of sep "\<lambda>c. c \<noteq> sep" "rev p"]
  by (auto simp: os_path_split_def Let_def)

lemma rstrip_shape: "rstrip_sep h = [] \<or> last (rstrip_sep h) \<noteq> sep"
proof -
  have "dropWhile (\<lambda>c. c = sep) (rev h) = [] \<or> hd (dropWhile (\<lambda>c. c = sep) (rev h)) \<noteq> sep"
    using hd_dropWhile[of "\<lambda>c. c = sep" "rev h"] by blast
  then show ?thesis
    by (auto simp: rstrip_sep_def last_rev)
qed

lemma head_shape:
  "fst (os_path_split p) = []
   \<or> fst (os_path_split p) = replicate (length (fst (os_path_split p))) sep
   \<or> last (fst (os_path_split p)) \<noteq> sep"
  using rstrip_shape[of "rev (dropWhile (\<lambda>c. c \<noteq> sep) (rev p))"]
  by (auto simp: os_path_split_def Let_def)

lemma split_no_sep:
  assumes "sep \<notin> set n"
  shows "os_path_split n = ([], n)"
proof -
  have all: "\<forall>c\<in>set (rev n). c \<noteq> sep"
    using assms by auto
  have t: "takeWhile (\<lambda>c. c \<noteq> sep) (rev n) = rev n"
    using all by (simp only: takeWhile_eq_all_conv)
  have dr: "dropWhile (\<lambda>c. c \<noteq> sep) (rev n) = []"
    using all by (simp only: dropWhile_eq_Nil_conv)
  show ?thesis
    unfolding os_path_split_def t dr by (simp add: Let_def)
qed

lemma split_at_last_sep:
  assumes "sep \<notin> set n"
  shows "os_path_split (d @ sep # n) =
     (if d @ [sep] \<noteq> replicate (Suc (length d)) sep then rstrip_sep (d @ [sep]) else d @ [sep], n)"
proof -
  have r: "rev (d @ sep # n) = rev n @ sep # rev d" by simp
  have "takeWhile (\<lambda>c. c \<noteq> sep) (rev n @ sep # rev d)
          = rev n @ takeWhile (\<lambda>c. c \<noteq> sep) (sep # rev d)"
    by (rule takeWhile_append2) (use assms in auto)
  then have t: "takeWhile (\<lambda>c. c \<noteq> sep) (rev n @ sep # rev d) = rev n"
    by simp
  have "dropWhile (\<lambda>c. c \<noteq> sep) (rev n @ sep # rev d)
          = dropWhile (\<lambda>c. c \<noteq> sep) (sep # rev d)"
    by (rule dropWhile_append2) (use assms in auto)
  then have dr: "dropWhile (\<lambda>c. c \<noteq> sep) (rev n @ sep # rev d) = sep # rev d"
    by simp
  show ?thesis
    unfolding os_path_split_def r t dr by (simp add: Let_def)
qed

text \<open>
  Joining a directory that \<^verbatim>\<open>os.path.split\<close> can return with a name that has no
  separator, and splitting again, gives the two back.
\<close>

lemma split_join:
  assumes n: "sep \<notin> set n"
    and h: "h = [] \<or> h = replicate (length h) sep \<or> last h \<noteq> sep"
  shows "os_path_split (os_path_join h n) = (h, n)"
proof -
  have nb: "\<not> (n \<noteq> [] \<and> hd n = sep)"
    using n by (cases n) auto
  consider (empty) "h = []" | (root) "h \<noteq> []" "last h = sep" | (dir) "h \<noteq> []" "last h \<noteq> sep"
    by blast
  then show ?thesis
  proof cases
    case empty
    then show ?thesis using nb n by (simp add: os_path_join_def split_no_sep)
  next
    case root
    with h have all: "h = replicate (length h) sep" by blast
    from root obtain d where d: "h = d @ [sep]"
      by (metis append_butlast_last_id)
    have "os_path_join h n = d @ sep # n"
      using root nb d by (simp add: os_path_join_def)
    moreover have "d @ [sep] = replicate (Suc (length d)) sep"
      using all d by (metis length_append_singleton)
    ultimately show ?thesis
      using split_at_last_sep[OF n, of d] d by simp
  next
    case dir
    have j: "os_path_join h n = h @ sep # n"
      using dir nb by (simp add: os_path_join_def)
    have "last h \<in> set (h @ [sep])" using dir by simp
    then have ne: "h @ [sep] \<noteq> replicate (Suc (length h)) sep"
      using dir(2) by (metis in_set_replicate)
    have "dropWhile (\<lambda>c. c = sep) (rev h) = rev h"
      using dir by (cases "rev h") (auto simp: last_rev[symmetric] hd_rev)
    then have "rstrip_sep (h @ [sep]) = h"
      by (simp add: rstrip_sep_def)
    with ne show ?thesis
      using split_at_last_sep[OF n, of h] j by simp
  qed
qed

lemma backup_same_directory:
  "os_path_split (os_path_join (fst (os_path_split p)) (''backup_'' @ snd (os_path_split p)))
     = (fst (os_path_split p), ''backup_'' @ snd (os_path_split p))"
  using tail_no_sep[of p] head_shape[of p]
  by (intro split_join) auto

subsection \<open>The run\<close>

text \<open>
  What the script itself does. If the path does not exist, the run prints one
  line and calls exit(): no command is started and nothing is written. If it
  exists, the first thing the run does is to hand the shell a \<^verbatim>\<open>cp\<close> command for
  the path and for the path made of the file's own directory and "backup_"
  followed by its file name; it then prints that a backup was created, and
  reads the table, whether or not the later steps fail.
\<close>

lemma main_execution_trace:
  "(\<not> path_exists p \<longrightarrow>
      main_execution path_exists completes p = [Print ''File does not exist.'', Exit]
      \<and> (\<forall>c. Popen c \<notin> set (main_execution path_exists completes p))
      \<and> (\<forall>q. ToCsv q \<notin> set (main_execution path_exists completes p)))
   \<and> (path_exists p \<longrightarrow>
      (\<exists>backup_path rest.
          main_execution path_exists completes p
            = Popen (''cp '' @ dquote @ p @ dquote @ '' '' @ dquote @ backup_path @ dquote)
              # Print (''Created a backup: '' @ backup_path) # ReadCsv p # rest
          \<and> os_path_split backup_path = (os_path_dirname p, ''backup_'' @ snd (os_path_split p))
          \<and> (\<forall>c. Popen c \<notin> set rest)))"
proof -
  have missing: "main_execution path_exists completes p = [Print ''File does not exist.'', Exit]"
    if "\<not> path_exists p"
    using that by (simp add: main_execution_def)
  have found: "\<exists>backup_path rest.
          main_execution path_exists completes p
            = Popen (''cp '' @ dquote @ p @ dquote @ '' '' @ dquote @ backup_path @ dquote)
              # Print (''Created a backup: '' @ backup_path) # ReadCsv p # rest
          \<and> os_path_split backup_path = (os_path_dirname p, ''backup_'' @ snd (os_path_split p))
          \<and> (\<forall>c. Popen c \<notin> set rest)"
    if "path_exists p"
  proof (intro exI conjI)
    show "main_execution path_exists completes p
            = Popen (''cp '' @ dquote @ p @ dquote @ '' '' @ dquote
                     @ os_path_join (fst (os_path_split p)) (''backup_'' @ snd (os_path_split p))
                     @ dquote)
              # Print (''Created a backup: ''
                       @ os_path_join (fst (os_path_split p)) (''backup_'' @ snd (os_path_split p)))
              # ReadCsv p
              # (if completes
                 then [ToCsv (os_path_join (os_path_dirname p) ''out.csv''),
                       Print (''Data saved to '' @ os_path_join (os_path_dirname p) ''out.csv''),
                       Exit]
                 else [Uncaught])"
      using that by (simp add: main_execution_def Let_def split_beta)
    show "os_path_split (os_path_join (fst (os_path_split p)) (''backup_'' @ snd (os_path_split p)))
            = (os_path_dirname p, ''backup_'' @ snd (os_path_split p))"
      unfolding os_path_dirname_def by (rule backup_same_directory)
    show "\<forall>c. Popen c \<notin> set (if completes
                 then [ToCsv (os_path_join (os_path_dirname p) ''out.csv''),
                       Print (''Data saved to '' @ os_path_join (os_path_dirname p) ''out.csv''),
                       Exit]
                 else [Uncaught])"
      by simp
  qed
  from missing found show ?thesis
    by auto
qed

subsection \<open>The copy command\<close>

lemma sh_fields_quoted:
  assumes "\<forall>c\<in>set s. c \<noteq> CHR 0x22 \<and> \<not> special_in_quotes c"
  shows "sh_fields True (Some w) (s @ CHR 0x22 # rest) = sh_fields False (Some (w @ s)) rest"
  using assms by (induction s arbitrary: w) simp_all

text \<open>
  For two paths without a double quote, \<^verbatim>\<open>$\<close>, backquote or backslash the line
  that the script builds has the fields it is meant to have.
\<close>

lemma cp_command_fields:
  assumes "\<forall>c\<in>set p. c \<noteq> CHR 0x22 \<and> \<not> special_in_quotes c"
    and "\<forall>c\<in>set b. c \<noteq> CHR 0x22 \<and> \<not> special_in_quotes c"
  shows "sh_command (''cp '' @ dquote @ p @ dquote @ '' '' @ dquote @ b @ dquote)
           = Fields [''cp'', p, b]"
proof -
  have "sh_command (''cp '' @ dquote @ p @ dquote @ '' '' @ dquote @ b @ dquote)
          = push_field ''cp'' (sh_fields True (Some []) (p @ CHR 0x22 # '' '' @ dquote @ b @ dquote))"
    by (simp add: sh_command_def special_unquoted_def special_in_quotes_def)
  also have "sh_fields True (Some []) (p @ CHR 0x22 # '' '' @ dquote @ b @ dquote)
               = sh_fields False (Some p) ('' '' @ dquote @ b @ dquote)"
    using sh_fields_quoted[OF assms(1), of "[]"] by simp
  also have "\<dots> = push_field p (sh_fields True (Some []) (b @ CHR 0x22 # []))"
    by simp
  also have "sh_fields True (Some []) (b @ CHR 0x22 # []) = sh_fields False (Some b) []"
    using sh_fields_quoted[OF assms(2), of "[]"] by simp
  finally show ?thesis
    by simp
qed

text \<open>
  C8. The claim says that for an existing file a backup named "backup_" plus
  the file name is written to the same directory before any transformation
  step runs, and line 112 of the script announces the same. The script puts the
  path between double quotes into a shell command without escaping it, does not
  wait for the command and does not look at its result. For the existing file
  /tmp/rt/a"b.csv, whose name contains a double quote, the shell reads the
  command line as \<^verbatim>\<open>cp\<close> with a single operand, which is neither the path nor the
  backup path: \<^verbatim>\<open>cp\<close> has no target and copies nothing. The script still prints
  that the backup was created and goes on to read and transform the table.
\<close>

theorem C8_backup_not_written:
  "main_execution (\<lambda>q. q = ''/tmp/rt/a'' @ dquote @ ''b.csv'') completes
       (''/tmp/rt/a'' @ dquote @ ''b.csv'')
     = [Popen (''cp '' @ dquote @ ''/tmp/rt/a'' @ dquote @ ''b.csv'' @ dquote @ '' '' @ dquote
               @ ''/tmp/rt/backup_a'' @ dquote @ ''b.csv'' @ dquote),
        Print (''Created a backup: /tmp/rt/backup_a'' @ dquote @ ''b.csv''),
        ReadCsv (''/tmp/rt/a'' @ dquote @ ''b.csv'')]
       @ (if completes
          then [ToCsv ''/tmp/rt/out.csv'', Print ''Data saved to /tmp/rt/out.csv'', Exit]
          else [Uncaught])
   \<and> sh_command (''cp '' @ dquote @ ''/tmp/rt/a'' @ dquote @ ''b.csv'' @ dquote @ '' '' @ dquote
               @ ''/tmp/rt/backup_a'' @ dquote @ ''b.csv'' @ dquote)
       = Fields [''cp'', ''/tmp/rt/ab.csv /tmp/rt/backup_ab.csv'']
   \<and> ''/tmp/rt/ab.csv /tmp/rt/backup_ab.csv'' \<noteq> ''/tmp/rt/a'' @ dquote @ ''b.csv''
   \<and> ''/tmp/rt/ab.csv /tmp/rt/backup_ab.csv'' \<noteq> ''/tmp/rt/backup_a'' @ dquote @ ''b.csv''"
proof -
  have run: "main_execution (\<lambda>q. q = ''/tmp/rt/a'' @ dquote @ ''b.csv'') completes
       (''/tmp/rt/a'' @ dquote @ ''b.csv'')
     = [Popen (''cp '' @ dquote @ ''/tmp/rt/a'' @ dquote @ ''b.csv'' @ dquote @ '' '' @ dquote
               @ ''/tmp/rt/backup_a'' @ dquote @ ''b.csv'' @ dquote),
        Print (''Created a backup: /tmp/rt/backup_a'' @ dquote @ ''b.csv''),
        ReadCsv (''/tmp/rt/a'' @ dquote @ ''b.csv'')]
       @ (if completes
          then [ToCsv ''/tmp/rt/out.csv'', Print ''Data saved to /tmp/rt/out.csv'', Exit]
          else [Uncaught])"
    by (simp add: main_execution_def os_path_dirname_def os_path_split_def os_path_join_def
        rstrip_sep_def Let_def)
  have fields: "sh_command (''cp '' @ dquote @ ''/tmp/rt/a'' @ dquote @ ''b.csv'' @ dquote @ '' '' @ dquote
               @ ''/tmp/rt/backup_a'' @ dquote @ ''b.csv'' @ dquote)
       = Fields [''cp'', ''/tmp/rt/ab.csv /tmp/rt/backup_ab.csv'']"
    by (simp add: sh_command_def special_unquoted_def special_in_quotes_def)
  from run fields show ?thesis
    by simp
qed

subsection \<open>Splitting and joining\<close>

lemma str_split_no_sep: "c \<notin> set s \<Longrightarrow> str_split c s = [s]"
  by (induction s) auto

lemma str_split_piece: "c \<notin> set x \<Longrightarrow> str_split c (x @ c # rest) = x # str_split c rest"
  by (induction x) auto

lemma str_split_join:
  "S \<noteq> [] \<Longrightarrow> \<forall>x\<in>set S. c \<notin> set x \<Longrightarrow> str_split c (str_join c S) = S"
proof (induction c S rule: str_join.induct)
  case (1 c)
  then show ?case by simp
next
  case (2 c x)
  then show ?case by (simp add: str_split_no_sep)
next
  case (3 c x y ys)
  then show ?case by (simp add: str_split_piece)
qed

lemma str_split_cell_of_choices:
  assumes "\<forall>x\<in>set S. semicolon \<notin> set x"
  shows "str_split_cell (cell_of_choices S) = (if S = [] then None else Some S)"
  using assms by (simp add: str_split_cell_def cell_of_choices_def str_split_join)

subsection \<open>The exploded column without labels\<close>

lemma map_filter_concat:
  "List.map_filter f (concat xss) = concat (map (List.map_filter f) xss)"
  by (induction xss) (simp_all add: List.map_filter_def)

lemma map_filter_explode_cell:
  "List.map_filter snd (explode_cell i c) = (case c of None \<Rightarrow> [] | Some S \<Rightarrow> S)"
  by (simp add: explode_cell_def List.map_filter_def comp_def split: option.splits list.splits)

lemma values_explode:
  "List.map_filter snd (explode col) = concat (map (\<lambda>c. case c of None \<Rightarrow> [] | Some S \<Rightarrow> S) col)"
proof -
  have "List.map_filter snd (explode col)
          = concat (map (\<lambda>p. case snd p of None \<Rightarrow> [] | Some S \<Rightarrow> S) (enumerate 0 col))"
    by (simp add: explode_def map_filter_concat comp_def split_beta map_filter_explode_cell)
  also have "map (\<lambda>p. case snd p of None \<Rightarrow> [] | Some S \<Rightarrow> S) (enumerate 0 col)
               = map (\<lambda>c. case c of None \<Rightarrow> [] | Some S \<Rightarrow> S) col"
    using map_map[of "\<lambda>c. case c of None \<Rightarrow> [] | Some S \<Rightarrow> S" snd "enumerate 0 col"]
    by (simp add: comp_def)
  finally show ?thesis .
qed

subsection \<open>Labels replaced by keys\<close>

lemma explode_cell_relabel:
  "map (\<lambda>(n, v). (f n, v)) (explode_cell i c) = explode_cell (f i) c"
  by (simp add: explode_cell_def split: option.splits list.splits)

lemma explode_keyed:
  assumes "length keys = length col"
  shows "map (\<lambda>(n, v). (keys ! n, v)) (explode col)
           = concat (map (\<lambda>(k, c). explode_cell k c) (zip keys col))"
proof -
  have "map (\<lambda>(n, v). (keys ! n, v)) (explode col)
          = concat (map (\<lambda>p. explode_cell (keys ! fst p) (snd p)) (enumerate 0 col))"
    by (simp add: explode_def map_concat comp_def split_beta explode_cell_relabel)
  also have "enumerate 0 col = zip [0..<length col] col"
    by (simp add: enumerate_eq_zip)
  also have "map (\<lambda>p. explode_cell (keys ! fst p) (snd p)) (zip [0..<length col] col)
               = map (\<lambda>(k, c). explode_cell k c) (zip (map ((!) keys) [0..<length col]) col)"
    by (simp add: zip_map1 comp_def case_prod_unfold)
  also have "map ((!) keys) [0..<length col] = keys"
    using assms by (metis map_nth)
  finally show ?thesis .
qed

lemma groupby_sum_keyed:
  "groupby_sum keys ncols m =
     map (\<lambda>k. (k, map (\<lambda>j. sum_list (map (\<lambda>(k', r). r ! j)
                                       (filter (\<lambda>(k', r). k' = k)
                                          (map (\<lambda>(n, r). (keys ! n, r)) m))))
                       [0..<ncols]))
         (sort (remdups (map fst (map (\<lambda>(n, r). (keys ! n, r)) m))))"
  by (simp add: groupby_sum_def filter_map comp_def case_prod_unfold)

subsection \<open>One group per respondent\<close>

lemma filter_key_singleton:
  "distinct ks \<Longrightarrow> a \<in> set ks \<Longrightarrow> filter (\<lambda>k. k = a) ks = [a]"
  by (induction ks) (auto simp: filter_empty_conv)

lemma concat_only_own:
  assumes "distinct (map f bs)" and "b \<in> set bs"
  shows "concat (map (\<lambda>b'. if f b' = f b then F b' else []) bs) = F b"
  using assms
proof (induction bs)
  case Nil
  then show ?case by simp
next
  case (Cons a bs)
  show ?case
  proof (cases "a = b")
    case True
    have "\<forall>b'\<in>set bs. f b' \<noteq> f b"
      using Cons.prems(1) True by (force simp: image_iff)
    then have "concat (map (\<lambda>b'. if f b' = f b then F b' else []) bs) = []"
      by (induction bs) auto
    with True show ?thesis by simp
  next
    case False
    with Cons.prems have "b \<in> set bs" "f a \<noteq> f b" "distinct (map f bs)"
      by auto
    with Cons.IH show ?thesis by simp
  qed
qed

lemma explode_cell_keys: "set (map fst (explode_cell k c)) = {k}"
  by (auto simp: explode_cell_def split: option.splits list.splits)

lemma filter_explode_cell:
  "filter (\<lambda>p. fst p = a) (explode_cell k c) = (if k = a then explode_cell k c else [])"
  by (auto simp: explode_cell_def filter_empty_conv split: option.splits list.splits)

subsection \<open>Counting a choice in a selection\<close>

lemma sum_indicator:
  "distinct S \<Longrightarrow> sum_list (map (\<lambda>v. if v = c then 1 else 0) S) = (if c \<in> set S then 1 else (0::nat))"
  by (induction S) auto

lemma sum_explode_cell:
  assumes "distinct S"
  shows "sum_list (map (\<lambda>(k, v). if v = Some c then 1 else 0)
                    (explode_cell i (if S = [] then None else Some S)))
           = (if c \<in> set S then 1 else (0::nat))"
proof (cases S)
  case Nil
  then show ?thesis by (simp add: explode_cell_def)
next
  case (Cons x xs)
  then have "explode_cell i (if S = [] then None else Some S) = map (\<lambda>v. (i, Some v)) S"
    by (simp add: explode_cell_def)
  then have "sum_list (map (\<lambda>(k, v). if v = Some c then 1 else 0)
                        (explode_cell i (if S = [] then None else Some S)))
               = sum_list (map (\<lambda>v. if v = c then 1 else (0::nat)) S)"
    by (simp add: comp_def)
  also have "\<dots> = (if c \<in> set S then 1 else 0)"
    using assms by (rule sum_indicator)
  finally show ?thesis .
qed

subsection \<open>The checks before the expansion\<close>

lemma text_column_batch:
  assumes "batch = [] \<or> list_ex (\<lambda>(i, S, x). S \<noteq> []) batch"
  shows "text_column (map answer (rows_of_batch batch))"
proof (cases "batch = []")
  case True
  then show ?thesis
    by (simp add: text_column_def rows_of_batch_def)
next
  case False
  with assms obtain i S x where b: "(i, S, x) \<in> set batch" "S \<noteq> []"
    by (auto simp: list_ex_iff)
  then have "Str (str_join semicolon S) \<in> set (map answer (rows_of_batch batch))"
    by (force simp: rows_of_batch_def cell_of_choices_def)
  moreover have "case Str (str_join semicolon S) of Str s \<Rightarrow> True | Num n \<Rightarrow> False"
    by simp
  ultimately have "\<exists>c\<in>set (map answer (rows_of_batch batch)).
      case c of Str s \<Rightarrow> True | Num n \<Rightarrow> False"
    by (rule bexI[rotated])
  then show ?thesis
    unfolding text_column_def list_ex_iff by (rule disjI2)
qed

lemma count_list_once: "distinct xs \<Longrightarrow> x \<in> set xs \<Longrightarrow> count_list xs x = 1"
  by (induction xs) auto

lemma merge_labels_distinct:
  assumes "distinct (map (\<lambda>l. if l \<in> set right then l @ ''_x'' else l) left)"
    and "distinct (map (\<lambda>l. if l \<in> set left then l @ ''_y'' else l) right)"
  shows "merge_labels left right
           = Inr (map (\<lambda>l. if l \<in> set right then l @ ''_x'' else l) left,
                  map (\<lambda>l. if l \<in> set left then l @ ''_y'' else l) right)"
  unfolding merge_labels_def Let_def using assms by (simp only: simp_thms if_True)

subsection \<open>The expansion of a batch\<close>

text \<open>
  The whole result for a batch with distinct identifiers whose choices contain
  no semicolon and are listed at most once per respondent, in a table whose
  column holds text and whose labels are distinct, and stay distinct on each
  side under the suffixes of the merge: the indicator columns are the distinct
  choices in sorted order, a choice that is also a label of the table under its
  suffixed label, and each respondent comes out once, in place, with 1 under
  the choices selected and 0 under the others.
\<close>

lemma splitMultipleChoice_batch:
  fixes batch :: "(int \<times> string list \<times> 'a) list"
  defines "cats \<equiv> sort (remdups (concat (map (\<lambda>(i, S, x). S) batch)))"
  assumes ids: "distinct (map fst batch)"
    and once: "\<forall>(i, S, x)\<in>set batch. distinct S"
    and nosep: "\<forall>(i, S, x)\<in>set batch. \<forall>c\<in>set S. semicolon \<notin> set c"
    and held: "batch = [] \<or> list_ex (\<lambda>(i, S, x). S \<noteq> []) batch"
    and ls: "distinct ls" "''id'' \<in> set ls" "name \<in> set ls" "name @ ''_split'' \<notin> set ls"
    and left: "distinct (map (\<lambda>l. if l \<in> set cats then l @ ''_x'' else l) (ls @ [name @ ''_split'']))"
    and right: "distinct (map (\<lambda>c. if c \<in> set (ls @ [name @ ''_split'']) then c @ ''_y'' else c) cats)"
  shows "splitMultipleChoice name \<lparr> labels = ls, rows = rows_of_batch batch \<rparr> =
     Inr (map (\<lambda>l. if l \<in> set cats then l @ ''_x'' else l) (ls @ [name @ ''_split'']),
      map (\<lambda>c. if c \<in> set (ls @ [name @ ''_split'']) then c @ ''_y'' else c) cats,
      map (\<lambda>(i, S, x). \<lparr> rid = i, answer = cell_of_choices S, other = x,
                         answer_split = (if S = [] then None else Some S),
                         indicators = map (\<lambda>c. if c \<in> set S then 1 else 0) cats \<rparr>) batch)"
proof -
  let ?sel = "\<lambda>S::string list. if S = [] then None else Some S"
  let ?col = "map (\<lambda>(i, S, x). ?sel S) batch"
  let ?cell = "\<lambda>b::int \<times> string list \<times> 'a. explode_cell (fst b) (?sel (fst (snd b)))"
  have col: "map str_split_cell (map answer (rows_of_batch batch)) = ?col"
    using nosep by (auto simp: rows_of_batch_def str_split_cell_of_choices)
  have keys: "map rid (rows_of_batch batch) = map fst batch"
    by (simp add: rows_of_batch_def comp_def split_beta)
  have len: "length (map fst batch) = length ?col"
    by simp
  have "map (\<lambda>c. case c of None \<Rightarrow> [] | Some S \<Rightarrow> S) ?col = map (\<lambda>(i, S, x). S) batch"
    by (auto simp: comp_def)
  then have vals: "List.map_filter snd (explode ?col) = concat (map (\<lambda>(i, S, x). S) batch)"
    by (simp only: values_explode)
  have "zip (map fst batch) ?col = map (\<lambda>(i, S, x). (i, ?sel S)) batch"
    by (simp add: zip_map_map zip_same_conv_map comp_def split_beta)
  then have KV: "map (\<lambda>(n, v). (map fst batch ! n, v)) (explode ?col) = concat (map ?cell batch)"
    by (simp only: explode_keyed[OF len]) (simp add: comp_def case_prod_unfold)
  define ind where "ind v = map (\<lambda>c. if v = Some c then 1 else (0::nat)) cats"
    for v :: "string option"
  have gd: "get_dummies (explode ?col) = (cats, map (\<lambda>(n, v). (n, ind v)) (explode ?col))"
    unfolding get_dummies_def vals cats_def ind_def by (simp add: Let_def)
  define KM where "KM = map (\<lambda>(k, v). (k, ind v)) (concat (map ?cell batch))"
  have "map (\<lambda>(n, r). (map fst batch ! n, r)) (map (\<lambda>(n, v). (n, ind v)) (explode ?col))
          = map (\<lambda>(k, v). (k, ind v)) (map (\<lambda>(n, v). (map fst batch ! n, v)) (explode ?col))"
    by (simp add: comp_def split_beta)
  then have keyed: "map (\<lambda>(n, r). (map fst batch ! n, r)) (map (\<lambda>(n, v). (n, ind v)) (explode ?col))
          = KM"
    by (simp only: KV KM_def)
  define bm where
    "bm = groupby_sum (map fst batch) (length cats) (map (\<lambda>(n, v). (n, ind v)) (explode ?col))"
  define total where
    "total k = map (\<lambda>j. sum_list (map (\<lambda>(k', r). r ! j) (filter (\<lambda>(k', r). k' = k) KM)))
                   [0..<length cats]" for k
  have bm: "bm = map (\<lambda>k. (k, total k)) (sort (remdups (map fst KM)))"
    unfolding bm_def groupby_sum_keyed keyed total_def ..
  have "map fst KM = map fst (concat (map ?cell batch))"
    by (simp add: KM_def comp_def split_beta)
  then have "set (map fst KM) = (\<Union>b\<in>set batch. set (map fst (?cell b)))"
    by (simp add: map_concat comp_def)
  also have "\<dots> = fst ` set batch"
    by (auto simp: explode_cell_keys split_beta simp del: set_map)
  finally have keyset: "set (map fst KM) = fst ` set batch" .
  have group: "filter (\<lambda>(k', r). k' = i) KM = map (\<lambda>(k, v). (k, ind v)) (explode_cell i (?sel S))"
    if b: "(i, S, x) \<in> set batch" for i S x
  proof -
    have "filter (\<lambda>(k', r). k' = i) KM
            = map (\<lambda>(k, v). (k, ind v)) (filter (\<lambda>(k', v). k' = i) (concat (map ?cell batch)))"
      by (simp add: KM_def filter_map comp_def case_prod_unfold)
    also have "filter (\<lambda>(k', v). k' = i) (concat (map ?cell batch))
                 = concat (map (\<lambda>b'. if fst b' = fst (i, S, x) then ?cell b' else []) batch)"
      by (simp add: filter_concat comp_def case_prod_unfold filter_explode_cell)
    also have "\<dots> = ?cell (i, S, x)"
      using ids b by (rule concat_only_own)
    finally show ?thesis by simp
  qed
  have counts: "total i = map (\<lambda>c. if c \<in> set S then 1 else 0) cats"
    if b: "(i, S, x) \<in> set batch" for i S x
  proof -
    have S: "distinct S"
      using once b by auto
    have "sum_list (map (\<lambda>(k', r). r ! j) (filter (\<lambda>(k', r). k' = i) KM))
            = (if cats ! j \<in> set S then 1 else 0)"
      if j: "j < length cats" for j
    proof -
      have "map (\<lambda>(k', r). r ! j) (filter (\<lambda>(k', r). k' = i) KM)
              = map (\<lambda>(k, v). ind v ! j) (explode_cell i (?sel S))"
        by (simp add: group[OF b] comp_def split_beta)
      also have "\<dots> = map (\<lambda>(k, v). if v = Some (cats ! j) then 1 else 0) (explode_cell i (?sel S))"
        using j by (simp add: ind_def)
      finally show ?thesis
        by (simp only: sum_explode_cell[OF S])
    qed
    then have "total i = map (\<lambda>j. if cats ! j \<in> set S then 1 else 0) [0..<length cats]"
      by (simp add: total_def)
    also have "\<dots> = map (\<lambda>c. if c \<in> set S then 1 else 0) (map ((!) cats) [0..<length cats])"
      by (simp add: comp_def)
    also have "map ((!) cats) [0..<length cats] = cats"
      by (rule map_nth)
    finally show ?thesis .
  qed
  have one: "filter (\<lambda>(k, counts). k = i) bm = [(i, map (\<lambda>c. if c \<in> set S then 1 else 0) cats)]"
    if b: "(i, S, x) \<in> set batch" for i S x
  proof -
    have "i \<in> set (sort (remdups (map fst KM)))"
      using b keyset by force
    then have "filter (\<lambda>k. k = i) (sort (remdups (map fst KM))) = [i]"
      by (intro filter_key_singleton) simp_all
    then have "filter (\<lambda>(k, counts). k = i) bm = [(i, total i)]"
      by (simp add: bm filter_map comp_def)
    with counts[OF b] show ?thesis by simp
  qed
  define L where "L = map (\<lambda>l. if l \<in> set cats then l @ ''_x'' else l) (ls @ [name @ ''_split''])"
  define R where
    "R = map (\<lambda>c. if c \<in> set (ls @ [name @ ''_split'']) then c @ ''_y'' else c) cats"
  have ls1: "distinct (ls @ [name @ ''_split''])"
    using ls by simp
  have merge: "merge_labels (ls @ [name @ ''_split'']) cats = Inr (L, R)"
    unfolding L_def R_def using left right by (rule merge_labels_distinct)
  have "splitMultipleChoice name \<lparr> labels = ls, rows = rows_of_batch batch \<rparr> =
     Inr (L, R,
      concat (map (\<lambda>(r, s). map (\<lambda>(k, counts).
                                     \<lparr> rid = rid r, answer = answer r, other = other r,
                                       answer_split = s, indicators = counts \<rparr>)
                              (filter (\<lambda>(k, counts). k = rid r) bm))
                  (zip (rows_of_batch batch) ?col)))"
    unfolding splitMultipleChoice_def bm_def
    using ls ls1 text_column_batch[OF held] count_list_once[OF ls(1,3)]
    by (simp add: Let_def col col[unfolded map_map] keys gd merge del: distinct_append)
  also have "zip (rows_of_batch batch) ?col
       = map (\<lambda>(i, S, x). (\<lparr> rid = i, answer = cell_of_choices S, other = x \<rparr>, ?sel S)) batch"
    by (simp add: rows_of_batch_def zip_map_map zip_same_conv_map comp_def split_beta)
  finally have run: "splitMultipleChoice name \<lparr> labels = ls, rows = rows_of_batch batch \<rparr> =
     Inr (L, R,
      concat (map (\<lambda>(r, s). map (\<lambda>(k, counts).
                                     \<lparr> rid = rid r, answer = answer r, other = other r,
                                       answer_split = s, indicators = counts \<rparr>)
                              (filter (\<lambda>(k, counts). k = rid r) bm))
               (map (\<lambda>(i, S, x). (\<lparr> rid = i, answer = cell_of_choices S, other = x \<rparr>, ?sel S))
                    batch)))" .
  have own: "map (\<lambda>(k, counts). \<lparr> rid = fst b, answer = cell_of_choices (fst (snd b)),
                                  other = snd (snd b), answer_split = ?sel (fst (snd b)),
                                  indicators = counts \<rparr>)
               (filter (\<lambda>(k, counts). k = fst b) bm)
         = [\<lparr> rid = fst b, answer = cell_of_choices (fst (snd b)), other = snd (snd b),
              answer_split = ?sel (fst (snd b)),
              indicators = map (\<lambda>c. if c \<in> set (fst (snd b)) then 1 else 0) cats \<rparr>]"
    if "b \<in> set batch" for b
    using one[of "fst b" "fst (snd b)" "snd (snd b)"] that by simp
  have "map (\<lambda>b. map (\<lambda>(k, counts). \<lparr> rid = fst b, answer = cell_of_choices (fst (snd b)),
                                  other = snd (snd b), answer_split = ?sel (fst (snd b)),
                                  indicators = counts \<rparr>)
               (filter (\<lambda>(k, counts). k = fst b) bm)) batch
     = map (\<lambda>b. [\<lparr> rid = fst b, answer = cell_of_choices (fst (snd b)), other = snd (snd b),
              answer_split = ?sel (fst (snd b)),
              indicators = map (\<lambda>c. if c \<in> set (fst (snd b)) then 1 else 0) cats \<rparr>]) batch"
    using own by (intro map_cong refl) blast
  then have "concat (map (\<lambda>b. map (\<lambda>(k, counts). \<lparr> rid = fst b, answer = cell_of_choices (fst (snd b)),
                                  other = snd (snd b), answer_split = ?sel (fst (snd b)),
                                  indicators = counts \<rparr>)
               (filter (\<lambda>(k, counts). k = fst b) bm)) batch)
     = concat (map (\<lambda>b. [\<lparr> rid = fst b, answer = cell_of_choices (fst (snd b)), other = snd (snd b),
              answer_split = ?sel (fst (snd b)),
              indicators = map (\<lambda>c. if c \<in> set (fst (snd b)) then 1 else 0) cats \<rparr>]) batch)"
    by (rule arg_cong)
  then have "concat (map (\<lambda>(r, s). map (\<lambda>(k, counts).
                                     \<lparr> rid = rid r, answer = answer r, other = other r,
                                       answer_split = s, indicators = counts \<rparr>)
                              (filter (\<lambda>(k, counts). k = rid r) bm))
               (map (\<lambda>(i, S, x). (\<lparr> rid = i, answer = cell_of_choices S, other = x \<rparr>, ?sel S))
                    batch))
     = map (\<lambda>(i, S, x). \<lparr> rid = i, answer = cell_of_choices S, other = x,
                         answer_split = ?sel S,
                         indicators = map (\<lambda>c. if c \<in> set S then 1 else 0) cats \<rparr>) batch"
    by (simp add: comp_def case_prod_unfold)
  then show ?thesis
    by (simp only: run[unfolded L_def R_def])
qed

subsection \<open>Labels\<close>

text \<open>
  The identifiers that line 121 assigns are distinct, and a choice that is
  already a label of the table comes out under two suffixed labels, as lines
  214 and 219 of the script expect for the choice "Jine" (in the survey's
  spelling) of two questions.
\<close>

lemma respondent_ids_distinct: "distinct (respondent_ids n)"
  by (simp add: respondent_ids_def distinct_map inj_on_def)

lemma merge_labels_clash:
  "merge_labels [''id'', ''Jin'' @ e_acute] [''Akcie'', ''Jin'' @ e_acute]
     = Inr ([''id'', ''Jin'' @ e_acute @ ''_x''], [''Akcie'', ''Jin'' @ e_acute @ ''_y''])"
  by (simp add: merge_labels_def)

text \<open>
  C3 (as stated). The claim covers a batch in which nobody selected anything
  ("possibly empty"). \<^verbatim>\<open>read_csv\<close> loads such a column with a numeric dtype, and
  line 95 raises \<^verbatim>\<open>AttributeError\<close> at \<^verbatim>\<open>.str\<close>: no table is returned, so no
  respondent gets a row.
\<close>

theorem C3_empty_column_counterexample:
  "distinct (map fst [(1::int, [], ()), (2, [], ())])
   \<and> list_all (\<lambda>(i, S, x). distinct S \<and> list_all (\<lambda>c. semicolon \<notin> set c) S)
        [(1::int, [], ()), (2, [], ())]
   \<and> rows_of_batch [(1::int, [], ()), (2, [], ())]
        = [\<lparr> rid = 1, answer = Num NaN, other = () \<rparr>, \<lparr> rid = 2, answer = Num NaN, other = () \<rparr>]
   \<and> splitMultipleChoice ''investment_instrument''
        \<lparr> labels = [''id'', ''investment_instrument''],
          rows = rows_of_batch [(1::int, [], ()), (2, [], ())] \<rparr>
       = Inl AttributeError"
  by (simp add: splitMultipleChoice_def rows_of_batch_def cell_of_choices_def text_column_def
      Let_def)

text \<open>
  C3 (amended). Take a batch of N respondents with distinct identifiers, where
  respondent i selected the choices S_i, each listed at most once and none
  containing a semicolon, written into the multi-select column as a
  semicolon-delimited list (an empty cell when S_i is empty), and let the
  column hold text: at least one respondent selected something, or N = 0. Let
  the labels of the table be distinct, with \<^verbatim>\<open>id\<close> and the column's label among
  them and without the label of the \<^verbatim>\<open>_split\<close> column, and let the labels of each
  side stay distinct under the suffixes of the merge of line 99: \<^verbatim>\<open>_x\<close> on a label
  of the table that is also a choice, \<^verbatim>\<open>_y\<close> on a choice that is also a label of
  the table. Then \<^verbatim>\<open>splitMultipleChoice\<close> returns the table with the \<^verbatim>\<open>_split\<close>
  column added and one indicator column per distinct value of the union of the
  S_i, in sorted order and without repetition, labelled by the value, or by the
  value with \<^verbatim>\<open>_y\<close> when the table already has that label; the table has exactly
  the N rows of the batch, each once and in place; and in the row of respondent
  i the indicator of choice c is 1 if c is in S_i and 0 otherwise, so a
  respondent with an empty cell has 0 everywhere. The identifiers that the
  script assigns are distinct.
\<close>

theorem C3_splitMultipleChoice:
  fixes batch :: "(int \<times> string list \<times> 'a) list"
  assumes "distinct (map fst batch)"
    and "list_all (\<lambda>(i, S, x). distinct S \<and> list_all (\<lambda>c. semicolon \<notin> set c) S) batch"
    and "batch = [] \<or> list_ex (\<lambda>(i, S, x). S \<noteq> []) batch"
    and "distinct ls" and "''id'' \<in> set ls" and "name \<in> set ls"
    and "name @ ''_split'' \<notin> set ls"
    and "distinct (map (\<lambda>l. if l \<in> set (concat (map (\<lambda>(i, S, x). S) batch)) then l @ ''_x'' else l)
                       (ls @ [name @ ''_split'']))"
    and "distinct (map (\<lambda>c. if c \<in> set (ls @ [name @ ''_split'']) then c @ ''_y'' else c)
                       (sort (remdups (concat (map (\<lambda>(i, S, x). S) batch)))))"
  shows
    "(let columns = sort (remdups (concat (map (\<lambda>(i, S, x). S) batch)));
          table = map (\<lambda>(i, S, x). \<lparr> rid = i, answer = cell_of_choices S, other = x,
                                     answer_split = (if S = [] then None else Some S),
                                     indicators = map (\<lambda>c. if c \<in> set S then 1 else 0) columns \<rparr>)
                      batch
      in splitMultipleChoice name \<lparr> labels = ls, rows = rows_of_batch batch \<rparr>
           = Inr (map (\<lambda>l. if l \<in> set columns then l @ ''_x'' else l) (ls @ [name @ ''_split'']),
                  map (\<lambda>c. if c \<in> set (ls @ [name @ ''_split'']) then c @ ''_y'' else c) columns,
                  table)
         \<and> distinct columns
         \<and> set columns = (\<Union>(i, S, x)\<in>set batch. set S)
         \<and> length table = length batch
         \<and> map (\<lambda>r. (rid r, other r)) table = map (\<lambda>(i, S, x). (i, x)) batch
         \<and> distinct (respondent_ids (length batch)))"
proof -
  let ?columns = "sort (remdups (concat (map (\<lambda>(i, S, x). S) batch)))"
  have once: "\<forall>(i, S, x)\<in>set batch. distinct S"
    and nosep: "\<forall>(i, S, x)\<in>set batch. \<forall>c\<in>set S. semicolon \<notin> set c"
    using assms(2) by (auto simp: list_all_iff)
  have "set ?columns = set (concat (map (\<lambda>(i, S, x). S) batch))"
    by simp
  with assms(8) have left: "distinct (map (\<lambda>l. if l \<in> set ?columns then l @ ''_x'' else l)
                                          (ls @ [name @ ''_split'']))"
    by (simp only:)
  have union: "set ?columns = (\<Union>(i, S, x)\<in>set batch. set S)"
    by (auto simp: case_prod_unfold)
  have run: "splitMultipleChoice name \<lparr> labels = ls, rows = rows_of_batch batch \<rparr>
           = Inr (map (\<lambda>l. if l \<in> set ?columns then l @ ''_x'' else l) (ls @ [name @ ''_split'']),
                  map (\<lambda>c. if c \<in> set (ls @ [name @ ''_split'']) then c @ ''_y'' else c) ?columns,
                  map (\<lambda>(i, S, x). \<lparr> rid = i, answer = cell_of_choices S, other = x,
                                     answer_split = (if S = [] then None else Some S),
                                     indicators = map (\<lambda>c. if c \<in> set S then 1 else 0) ?columns \<rparr>)
                      batch)"
    using assms(1) once nosep assms(3-7) left assms(9) by (rule splitMultipleChoice_batch)
  have rest: "map (\<lambda>r. (rid r, other r))
                (map (\<lambda>(i, S, x). \<lparr> rid = i, answer = cell_of_choices S, other = x,
                                     answer_split = (if S = [] then None else Some S),
                                     indicators = map (\<lambda>c. if c \<in> set S then 1 else 0) ?columns \<rparr>)
                      batch)
              = map (\<lambda>(i, S, x). (i, x)) batch"
    by (simp add: comp_def case_prod_unfold)
  show ?thesis
    unfolding Let_def
    by (intro conjI run union rest respondent_ids_distinct) simp_all
qed

theorem C3_splitMultipleChoice_witness:
  "distinct (map fst [(1::int, [''Dluhopisy'', ''Akcie''], ()), (2, [], ()), (3, [''Akcie''], ())])
   \<and> list_all (\<lambda>(i, S, x). distinct S \<and> list_all (\<lambda>c. semicolon \<notin> set c) S)
        [(1::int, [''Dluhopisy'', ''Akcie''], ()), (2, [], ()), (3, [''Akcie''], ())]
   \<and> list_ex (\<lambda>(i, S, x). S \<noteq> [])
        [(1::int, [''Dluhopisy'', ''Akcie''], ()), (2, [], ()), (3, [''Akcie''], ())]
   \<and> splitMultipleChoice ''investment_instrument''
        \<lparr> labels = [''id'', ''investment_instrument''],
          rows = [\<lparr> rid = 1, answer = Str ''Dluhopisy;Akcie'', other = () \<rparr>,
                  \<lparr> rid = 2, answer = Num NaN, other = () \<rparr>,
                  \<lparr> rid = 3, answer = Str ''Akcie'', other = () \<rparr>] \<rparr>
       = Inr ([''id'', ''investment_instrument'', ''investment_instrument_split''],
              [''Akcie'', ''Dluhopisy''],
              [\<lparr> rid = 1, answer = Str ''Dluhopisy;Akcie'', other = (),
                 answer_split = Some [''Dluhopisy'', ''Akcie''], indicators = [1, 1] \<rparr>,
               \<lparr> rid = 2, answer = Num NaN, other = (),
                 answer_split = None, indicators = [0, 0] \<rparr>,
               \<lparr> rid = 3, answer = Str ''Akcie'', other = (),
                 answer_split = Some [''Akcie''], indicators = [1, 0] \<rparr>])
   \<and> splitMultipleChoice ''investment_instrument''
        \<lparr> labels = [''id'', ''investment_instrument'', ''Akcie''],
          rows = [\<lparr> rid = 1, answer = Str ''Dluhopisy;Akcie'', other = () \<rparr>,
                  \<lparr> rid = 2, answer = Num NaN, other = () \<rparr>,
                  \<lparr> rid = 3, answer = Str ''Akcie'', other = () \<rparr>] \<rparr>
       = Inr ([''id'', ''investment_instrument'', ''Akcie_x'', ''investment_instrument_split''],
              [''Akcie_y'', ''Dluhopisy''],
              [\<lparr> rid = 1, answer = Str ''Dluhopisy;Akcie'', other = (),
                 answer_split = Some [''Dluhopisy'', ''Akcie''], indicators = [1, 1] \<rparr>,
               \<lparr> rid = 2, answer = Num NaN, other = (),
                 answer_split = None, indicators = [0, 0] \<rparr>,
               \<lparr> rid = 3, answer = Str ''Akcie'', other = (),
                 answer_split = Some [''Akcie''], indicators = [1, 0] \<rparr>])"
proof -
  let ?batch = "[(1::int, [''Dluhopisy'', ''Akcie''], ()), (2, [], ()), (3, [''Akcie''], ())]"
  let ?ls = "[''id'', ''investment_instrument'']"
  let ?ls' = "[''id'', ''investment_instrument'', ''Akcie'']"
  have ids: "distinct (map fst ?batch)"
    by simp
  have sel: "list_all (\<lambda>(i, S, x). distinct S \<and> list_all (\<lambda>c. semicolon \<notin> set c) S) ?batch"
    by simp
  have held: "?batch = [] \<or> list_ex (\<lambda>(i, S, x). S \<noteq> []) ?batch"
    by simp
  have columns: "sort (remdups (concat (map (\<lambda>(i, S, x). S) ?batch))) = [''Akcie'', ''Dluhopisy'']"
    by (simp add: less_eq_char_def less_char_def)
  have frame: "rows_of_batch ?batch =
        [\<lparr> rid = 1, answer = Str ''Dluhopisy;Akcie'', other = () \<rparr>,
         \<lparr> rid = 2, answer = Num NaN, other = () \<rparr>,
         \<lparr> rid = 3, answer = Str ''Akcie'', other = () \<rparr>]"
    by (simp add: rows_of_batch_def cell_of_choices_def)
  have ls: "distinct ?ls" "''id'' \<in> set ?ls" "''investment_instrument'' \<in> set ?ls"
    "''investment_instrument'' @ ''_split'' \<notin> set ?ls"
    by simp_all
  have left: "distinct (map (\<lambda>l. if l \<in> set (concat (map (\<lambda>(i, S, x). S) ?batch))
                                  then l @ ''_x'' else l)
                            (?ls @ [''investment_instrument'' @ ''_split'']))"
    by simp
  have right: "distinct (map (\<lambda>c. if c \<in> set (?ls @ [''investment_instrument'' @ ''_split''])
                                   then c @ ''_y'' else c)
                             (sort (remdups (concat (map (\<lambda>(i, S, x). S) ?batch)))))"
    unfolding columns by simp
  have ls': "distinct ?ls'" "''id'' \<in> set ?ls'" "''investment_instrument'' \<in> set ?ls'"
    "''investment_instrument'' @ ''_split'' \<notin> set ?ls'"
    by simp_all
  have left': "distinct (map (\<lambda>l. if l \<in> set (concat (map (\<lambda>(i, S, x). S) ?batch))
                                  then l @ ''_x'' else l)
                            (?ls' @ [''investment_instrument'' @ ''_split'']))"
    by simp
  have right': "distinct (map (\<lambda>c. if c \<in> set (?ls' @ [''investment_instrument'' @ ''_split''])
                                   then c @ ''_y'' else c)
                             (sort (remdups (concat (map (\<lambda>(i, S, x). S) ?batch)))))"
    unfolding columns by simp
  have plain: "splitMultipleChoice ''investment_instrument''
        \<lparr> labels = ?ls, rows = rows_of_batch ?batch \<rparr>
       = Inr ([''id'', ''investment_instrument'', ''investment_instrument_split''],
              [''Akcie'', ''Dluhopisy''],
              [\<lparr> rid = 1, answer = Str ''Dluhopisy;Akcie'', other = (),
                 answer_split = Some [''Dluhopisy'', ''Akcie''], indicators = [1, 1] \<rparr>,
               \<lparr> rid = 2, answer = Num NaN, other = (),
                 answer_split = None, indicators = [0, 0] \<rparr>,
               \<lparr> rid = 3, answer = Str ''Akcie'', other = (),
                 answer_split = Some [''Akcie''], indicators = [1, 0] \<rparr>])"
    using C3_splitMultipleChoice[OF ids sel held ls left right]
    unfolding Let_def columns by (simp add: cell_of_choices_def)
  have clash: "splitMultipleChoice ''investment_instrument''
        \<lparr> labels = ?ls', rows = rows_of_batch ?batch \<rparr>
       = Inr ([''id'', ''investment_instrument'', ''Akcie_x'', ''investment_instrument_split''],
              [''Akcie_y'', ''Dluhopisy''],
              [\<lparr> rid = 1, answer = Str ''Dluhopisy;Akcie'', other = (),
                 answer_split = Some [''Dluhopisy'', ''Akcie''], indicators = [1, 1] \<rparr>,
               \<lparr> rid = 2, answer = Num NaN, other = (),
                 answer_split = None, indicators = [0, 0] \<rparr>,
               \<lparr> rid = 3, answer = Str ''Akcie'', other = (),
                 answer_split = Some [''Akcie''], indicators = [1, 0] \<rparr>])"
    using C3_splitMultipleChoice[OF ids sel held ls' left' right']
    unfolding Let_def columns by (simp add: cell_of_choices_def)
  from plain clash ids sel show ?thesis
    unfolding frame by simp
qed

end
